theory Spec2Isabelle
  imports Main
begin

section \<open>JavaScript values\<close>

text \<open>
  \<^verbatim>\<open>server.js\<close> keeps three collections in JSON files and works on what
  \<^verbatim>\<open>JSON.parse\<close> returns, so the embedding starts from the values of the
  language. A number of the engine is a double. \<open>Num n\<close> is the number that is the
  integer \<open>n\<close> (ids are \<^verbatim>\<open>Date.now()\<close>, awards are 0, 5, 10, 20); the integers
  that are doubles are those that \<open>is_double\<close> accepts below, every integer up to
  \<open>2^53\<close> among them, and a sum is rounded to the nearest of them. \<open>Infinity\<close> and
  \<open>MinusInfinity\<close> are what a sum beyond the largest double gives. Numbers with a
  fractional part are no values of the model (no handler produces one from integers);
  zero has no sign, which no handler can observe. \<open>Fun\<close> is a built-in function,
  known by its name, and \<open>ObjectPrototype\<close> is \<^verbatim>\<open>Object.prototype\<close>: both can be
  read out of an object literal by a property name that the literal does not define.
  An object is the list of its own enumerable properties in insertion order, which is the
  order of the engine for every name that is not an array index.
  Strings are lists of 8-bit characters; the model is exact on ASCII text.
\<close>

datatype jsval =
    Undefined
  | Null
  | Bool bool
  | Num int
  | NaN
  | Infinity
  | MinusInfinity
  | Str string
  | Arr "jsval list"
  | Obj "(string \<times> jsval) list"
  | Fun string
  | ObjectPrototype

text \<open>What a \<^verbatim>\<open>throw\<close> carries; every handler catches all of them alike.\<close>

datatype error = TypeError | SyntaxError | ENOENT

text \<open>\<^verbatim>\<open>!v\<close> is \<open>\<not> truthy v\<close>, and \<^verbatim>\<open>a || b\<close> is \<open>js_or a b\<close>.\<close>

fun truthy :: "jsval \<Rightarrow> bool" where
  "truthy Undefined = False"
| "truthy Null = False"
| "truthy (Bool b) = b"
| "truthy (Num n) = (n \<noteq> 0)"
| "truthy NaN = False"
| "truthy Infinity = True"
| "truthy MinusInfinity = True"
| "truthy (Str s) = (s \<noteq> [])"
| "truthy (Arr xs) = True"
| "truthy (Obj kvs) = True"
| "truthy (Fun f) = True"
| "truthy ObjectPrototype = True"

definition js_or :: "jsval \<Rightarrow> jsval \<Rightarrow> jsval" where
  "js_or a b = (if truthy a then a else b)"

subsection \<open>Strings and numbers\<close>

text \<open>\<^verbatim>\<open>String.prototype.toLowerCase\<close> on ASCII letters.\<close>

definition lower_char :: "char \<Rightarrow> char" where
  "lower_char c =
     (case map_of (zip ''ABCDEFGHIJKLMNOPQRSTUVWXYZ'' ''abcdefghijklmnopqrstuvwxyz'') c of
        Some d \<Rightarrow> d
      | None \<Rightarrow> c)"

definition toLowerCase :: "string \<Rightarrow> string" where
  "toLowerCase s = map lower_char s"

text \<open>
  The decimal form of an integer. It is what \<^verbatim>\<open>String(n)\<close> gives for every integer up
  to \<open>2^53\<close> in size.
\<close>

definition digit_char :: "nat \<Rightarrow> char" where
  "digit_char d = ''0123456789'' ! d"

fun digits :: "nat \<Rightarrow> string" where
  "digits n = (if n < 10 then [digit_char n] else digits (n div 10) @ [digit_char (n mod 10)])"

declare digits.simps [simp del]

definition Number_toString :: "int \<Rightarrow> string" where
  "Number_toString n = (if n < 0 then CHR ''-'' # digits (nat (- n)) else digits (nat n))"

subsection \<open>Doubles\<close>

text \<open>
  A double has 53 significant bits. \<open>round_nat a\<close> is the multiple of \<open>2 ^ e\<close> nearest to
  the natural number \<open>a\<close>, where \<open>e\<close> is the number of bits that \<open>a\<close> has beyond 53, and of
  two nearest ones the one whose 53-bit factor is even. \<open>double_of n\<close> is the number that
  the engine holds for the integer \<open>n\<close>: the rounded integer, or an infinity from
  \<open>2 ^ 1024\<close> on. An integer is a double when that number is the integer itself.
\<close>

fun bit_length :: "nat \<Rightarrow> nat" where
  "bit_length n = (if n = 0 then 0 else Suc (bit_length (n div 2)))"

declare bit_length.simps [simp del]

definition round_nat :: "nat \<Rightarrow> nat" where
  "round_nat a =
     (let e = bit_length a - 53; q = a div 2 ^ e; r = a mod 2 ^ e in
      if 2 * r < 2 ^ e \<or> (2 * r = 2 ^ e \<and> even q) then q * 2 ^ e else (q + 1) * 2 ^ e)"

definition double_of :: "int \<Rightarrow> jsval" where
  "double_of n =
     (let v = round_nat (nat \<bar>n\<bar>) in
      if 2 ^ 1024 \<le> v then (if n < 0 then MinusInfinity else Infinity)
      else Num (if n < 0 then - int v else int v))"

definition is_double :: "int \<Rightarrow> bool" where
  "is_double n = (double_of n = Num n)"

text \<open>
  The double nearest to the quotient \<open>p / q\<close> of two natural numbers (\<open>q\<close> is not 0), for
  the numerals with a fraction or a negative exponent: \<open>None\<close> when that double has a
  fractional part and so is no value of the model. \<open>floor_log2 p q\<close> is the exponent of
  the largest power of 2 that is not above \<open>p / q\<close>; the double is a multiple \<open>m\<close> of
  \<open>2 ^ e\<close>, where \<open>e\<close> is 52 below that exponent and not below \<open>-1074\<close>, the exponent of the
  smallest double.
\<close>

definition floor_log2 :: "nat \<Rightarrow> nat \<Rightarrow> int" where
  "floor_log2 p q =
     (let l = int (bit_length p) - int (bit_length q) in
      if (if 0 \<le> l then q * 2 ^ nat l \<le> p else q \<le> p * 2 ^ nat (- l)) then l else l - 1)"

definition round_ratio :: "nat \<Rightarrow> nat \<Rightarrow> jsval option" where
  "round_ratio p q =
     (if p = 0 then Some (Num 0)
      else
        (let e = max (floor_log2 p q - 52) (- 1074);
             num = (if e < 0 then p * 2 ^ nat (- e) else p);
             den = (if e < 0 then q else q * 2 ^ nat e);
             m0 = num div den;
             r = num mod den;
             m = (if 2 * r < den \<or> (2 * r = den \<and> even m0) then m0 else m0 + 1)
         in if 0 \<le> e then
              (if 2 ^ 1024 \<le> m * 2 ^ nat e then Some Infinity else Some (Num (int (m * 2 ^ nat e))))
            else if 2 ^ nat (- e) dvd m then Some (Num (int (m div 2 ^ nat (- e))))
            else None))"

text \<open>
  \<^verbatim>\<open>String(n)\<close> for a number that is an integer. Up to \<open>2^53\<close> it is the decimal form.
  Beyond, the engine writes the numeral with the fewest significant digits that still reads
  back as the same double (of two such numerals the one nearer to the number, and of two
  equally near ones the one whose last significant digit is even), in full up to 21 digits
  and with an exponent from there on. \<open>candidates a z\<close> are the multiples of \<open>z\<close> next
  to \<open>a\<close> that read back as \<open>a\<close>.
\<close>

definition candidates :: "nat \<Rightarrow> nat \<Rightarrow> nat list" where
  "candidates a z =
     (let lo = (a div z) * z; hi = lo + z in
      (if round_nat lo = a then [lo] else []) @ (if round_nat hi = a then [hi] else []))"

definition closest :: "nat \<Rightarrow> nat \<Rightarrow> nat list \<Rightarrow> nat" where
  "closest a z cs =
     (case cs of
        [c] \<Rightarrow> c
      | [lo, hi] \<Rightarrow> (if a - lo < hi - a \<or> (a - lo = hi - a \<and> even (lo div z)) then lo else hi)
      | _ \<Rightarrow> a)"

definition shortest :: "nat \<Rightarrow> nat" where
  "shortest a =
     (let l = length (digits a) in
      case find (\<lambda>k. candidates a (10 ^ (l - k)) \<noteq> []) [1..<l] of
        None \<Rightarrow> a
      | Some k \<Rightarrow> closest a (10 ^ (l - k)) (candidates a (10 ^ (l - k))))"

definition exponential :: "nat \<Rightarrow> string" where
  "exponential c =
     (let ds = digits c; s = rev (dropWhile (\<lambda>d. d = CHR ''0'') (rev ds)) in
      hd s # (if tl s = [] then [] else CHR ''.'' # tl s) @ ''e+'' @ digits (length ds - 1))"

definition number_string :: "int \<Rightarrow> string" where
  "number_string n =
     (if \<bar>n\<bar> \<le> 2 ^ 53 then Number_toString n
      else
        (let c = shortest (nat \<bar>n\<bar>);
             t = (if c < 10 ^ 21 then digits c else exponential c)
         in if n < 0 then CHR ''-'' # t else t))"

subsection \<open>The number of a text\<close>

text \<open>
  The conversion of a string to a number (\<^verbatim>\<open>Number(s)\<close>, applied by \<^verbatim>\<open>==\<close>). Blanks
  and line ends around the text are dropped (of those beyond ASCII, the no-break space is
  the one that is an 8-bit character). The empty text is 0. A text with a radix prefix
  is the integer of its hexadecimal, octal or binary digits; it takes no sign. Any other
  text is, after an optional sign, \<^verbatim>\<open>Infinity\<close> or a decimal numeral: digits with an
  optional point among them or at either end, and an optional exponent. The numeral
  stands for the double nearest to its value. Text that has none of these forms is
  \<open>NaN\<close>. The result is \<open>None\<close> when the number has a fractional part: such a number is
  no value of the model, and all that the handlers do with the number of a text is to
  compare it with a number that is an integer, to which it is not equal.
\<close>

definition is_space :: "char \<Rightarrow> bool" where
  "is_space c = (c \<in> set [CHR 0x09, CHR 0x0A, CHR 0x0B, CHR 0x0C, CHR 0x0D, CHR 0x20, CHR 0xA0])"

definition trim :: "string \<Rightarrow> string" where
  "trim s = rev (dropWhile is_space (rev (dropWhile is_space s)))"

definition digit_value :: "char \<Rightarrow> nat option" where
  "digit_value c = map_of (zip ''0123456789'' [0, 1, 2, 3, 4, 5, 6, 7, 8, 9]) c"

fun digits_value :: "nat \<Rightarrow> string \<Rightarrow> nat option" where
  "digits_value acc [] = Some acc"
| "digits_value acc (c # cs) =
     (case digit_value c of None \<Rightarrow> None | Some d \<Rightarrow> digits_value (10 * acc + d) cs)"

definition unsigned_value :: "string \<Rightarrow> nat option" where
  "unsigned_value s = (if s = [] then None else digits_value 0 s)"

definition is_digit :: "char \<Rightarrow> bool" where
  "is_digit c = (digit_value c \<noteq> None)"

text \<open>The digits after a radix prefix.\<close>

definition hex_value :: "char \<Rightarrow> nat option" where
  "hex_value c =
     map_of (zip ''0123456789abcdefABCDEF''
               [0, 1, 2, 3, 4, 5, 6, 7, 8, 9, 10, 11, 12, 13, 14, 15, 10, 11, 12, 13, 14, 15]) c"

fun radix_value :: "nat \<Rightarrow> nat \<Rightarrow> string \<Rightarrow> nat option" where
  "radix_value radix acc [] = Some acc"
| "radix_value radix acc (c # cs) =
     (case hex_value c of
        None \<Rightarrow> None
      | Some d \<Rightarrow> if d < radix then radix_value radix (radix * acc + d) cs else None)"

definition radix_literal :: "string \<Rightarrow> nat option" where
  "radix_literal t =
     (case t of
        c0 # c1 # c2 # cs \<Rightarrow>
          (if c0 \<noteq> CHR ''0'' then None
           else if c1 = CHR ''x'' \<or> c1 = CHR ''X'' then radix_value 16 0 (c2 # cs)
           else if c1 = CHR ''o'' \<or> c1 = CHR ''O'' then radix_value 8 0 (c2 # cs)
           else if c1 = CHR ''b'' \<or> c1 = CHR ''B'' then radix_value 2 0 (c2 # cs)
           else None)
      | _ \<Rightarrow> None)"

text \<open>
  The exponent that ends a decimal numeral (0 when the numeral ends without one), and the
  numeral as its digits read as one natural number and the power of ten that scales it.
\<close>

definition exponent_part :: "string \<Rightarrow> int option" where
  "exponent_part s =
     (case s of
        [] \<Rightarrow> Some 0
      | c # t \<Rightarrow>
          (if c = CHR ''e'' \<or> c = CHR ''E'' then
             (case t of
                [] \<Rightarrow> None
              | d # u \<Rightarrow>
                  (if d = CHR ''-'' then map_option (\<lambda>x. - int x) (unsigned_value u)
                   else if d = CHR ''+'' then map_option int (unsigned_value u)
                   else map_option int (unsigned_value t)))
           else None))"

definition decimal_literal :: "string \<Rightarrow> (nat \<times> int) option" where
  "decimal_literal s =
     (let ip = takeWhile is_digit s;
          r1 = dropWhile is_digit s;
          point = (r1 \<noteq> [] \<and> hd r1 = CHR ''.'');
          fp = (if point then takeWhile is_digit (tl r1) else []);
          r2 = (if point then dropWhile is_digit (tl r1) else r1)
      in if ip = [] \<and> fp = [] then None
         else
           (case exponent_part r2 of
              None \<Rightarrow> None
            | Some x \<Rightarrow>
                (case digits_value 0 (ip @ fp) of
                   None \<Rightarrow> None
                 | Some m \<Rightarrow> Some (m, x - int (length fp)))))"

definition negate :: "jsval \<Rightarrow> jsval" where
  "negate v = (case v of Num n \<Rightarrow> Num (- n) | Infinity \<Rightarrow> MinusInfinity
               | MinusInfinity \<Rightarrow> Infinity | _ \<Rightarrow> v)"

definition StringToNumber :: "string \<Rightarrow> jsval option" where
  "StringToNumber s =
     (let t = trim s in
      if t = [] then Some (Num 0)
      else
        (case radix_literal t of
           Some n \<Rightarrow> Some (double_of (int n))
         | None \<Rightarrow>
             (let neg = (hd t = CHR ''-'');
                  u = (if hd t = CHR ''-'' \<or> hd t = CHR ''+'' then tl t else t)
              in if u = ''Infinity'' then Some (if neg then MinusInfinity else Infinity)
                 else
                   (case decimal_literal u of
                      None \<Rightarrow> Some NaN
                    | Some (m, x) \<Rightarrow>
                        map_option (\<lambda>v. if neg then negate v else v)
                          (if 0 \<le> x then Some (double_of (int (m * 10 ^ nat x)))
                           else round_ratio m (10 ^ nat (- x)))))))"

subsection \<open>Conversion to a primitive and to a string\<close>

text \<open>
  \<^verbatim>\<open>String(v)\<close>. An array is the join of its elements with commas, \<^verbatim>\<open>null\<close> and
  \<^verbatim>\<open>undefined\<close> elements being empty. A plain object is \<^verbatim>\<open>[object Object]\<close> through
  the inherited \<^verbatim>\<open>toString\<close>; a parsed object with a property of its own named
  \<^verbatim>\<open>toString\<close> has no callable one, and the conversion throws.
\<close>

fun ToString :: "jsval \<Rightarrow> error + string"
  and join :: "jsval list \<Rightarrow> error + string" where
  "ToString Undefined = Inr ''undefined''"
| "ToString Null = Inr ''null''"
| "ToString (Bool b) = Inr (if b then ''true'' else ''false'')"
| "ToString (Num n) = Inr (number_string n)"
| "ToString NaN = Inr ''NaN''"
| "ToString Infinity = Inr ''Infinity''"
| "ToString MinusInfinity = Inr ''-Infinity''"
| "ToString (Str s) = Inr s"
| "ToString (Arr xs) = join xs"
| "ToString (Obj kvs) =
     (if ''toString'' \<in> fst ` set kvs then Inl TypeError else Inr ''[object Object]'')"
| "ToString (Fun f) = Inr (''function '' @ f @ ''() { [native code] }'')"
| "ToString ObjectPrototype = Inr ''[object Object]''"
| "join [] = Inr []"
| "join (x # xs) =
     (case (if x = Undefined \<or> x = Null then Inr [] else ToString x) of
        Inl e \<Rightarrow> Inl e
      | Inr s \<Rightarrow>
          (if xs = [] then Inr s
           else (case join xs of Inl e \<Rightarrow> Inl e | Inr r \<Rightarrow> Inr (s @ '','' @ r))))"

text \<open>\<open>ToPrimitive\<close>: a primitive is itself, an object its string.\<close>

definition is_object :: "jsval \<Rightarrow> bool" where
  "is_object v = (case v of Arr xs \<Rightarrow> True | Obj kvs \<Rightarrow> True | Fun f \<Rightarrow> True
                  | ObjectPrototype \<Rightarrow> True | _ \<Rightarrow> False)"

definition ToPrimitive :: "jsval \<Rightarrow> error + jsval" where
  "ToPrimitive v =
     (if is_object v then (case ToString v of Inl e \<Rightarrow> Inl e | Inr s \<Rightarrow> Inr (Str s))
      else Inr v)"

text \<open>
  \<open>ToNumber\<close> of a primitive: a number is itself, and the one primitive that can have
  no number in the model is a string.
\<close>

fun ToNumber :: "jsval \<Rightarrow> jsval option" where
  "ToNumber Undefined = Some NaN"
| "ToNumber Null = Some (Num 0)"
| "ToNumber (Bool b) = Some (Num (if b then 1 else 0))"
| "ToNumber (Num n) = Some (Num n)"
| "ToNumber Infinity = Some Infinity"
| "ToNumber MinusInfinity = Some MinusInfinity"
| "ToNumber (Str s) = StringToNumber s"
| "ToNumber v = Some NaN"

subsection \<open>Operators\<close>

text \<open>
  \<^verbatim>\<open>a + b\<close>: both operands become primitives; if one is a string the result is the
  concatenation of their strings, otherwise the sum of their numbers, which is the double
  nearest to the exact sum (neither operand is a string there, so both have a number).
\<close>

definition is_string :: "jsval \<Rightarrow> bool" where
  "is_string v = (case v of Str s \<Rightarrow> True | _ \<Rightarrow> False)"

definition num_add :: "jsval \<Rightarrow> jsval \<Rightarrow> jsval" where
  "num_add a b =
     (case (a, b) of
        (Num x, Num y) \<Rightarrow> double_of (x + y)
      | (Num x, Infinity) \<Rightarrow> Infinity
      | (Num x, MinusInfinity) \<Rightarrow> MinusInfinity
      | (Infinity, Num y) \<Rightarrow> Infinity
      | (Infinity, Infinity) \<Rightarrow> Infinity
      | (MinusInfinity, Num y) \<Rightarrow> MinusInfinity
      | (MinusInfinity, MinusInfinity) \<Rightarrow> MinusInfinity
      | _ \<Rightarrow> NaN)"

definition js_add :: "jsval \<Rightarrow> jsval \<Rightarrow> error + jsval" where
  "js_add a b =
     (case ToPrimitive a of Inl e \<Rightarrow> Inl e | Inr pa \<Rightarrow>
      (case ToPrimitive b of Inl e \<Rightarrow> Inl e | Inr pb \<Rightarrow>
        (if is_string pa \<or> is_string pb then
           (case ToString pa of Inl e \<Rightarrow> Inl e | Inr sa \<Rightarrow>
            (case ToString pb of Inl e \<Rightarrow> Inl e | Inr sb \<Rightarrow> Inr (Str (sa @ sb))))
         else
           (case (ToNumber pa, ToNumber pb) of
              (Some x, Some y) \<Rightarrow> Inr (num_add x y)
            | _ \<Rightarrow> Inr NaN))))"

text \<open>
  \<^verbatim>\<open>a === b\<close>. Two objects are equal only when they are the same object; the handlers
  compare a value read from a file with a value of the request, which never are.
\<close>

fun strict_eq :: "jsval \<Rightarrow> jsval \<Rightarrow> bool" where
  "strict_eq Undefined b = (b = Undefined)"
| "strict_eq Null b = (b = Null)"
| "strict_eq (Bool x) b = (b = Bool x)"
| "strict_eq (Num x) b = (b = Num x)"
| "strict_eq Infinity b = (b = Infinity)"
| "strict_eq MinusInfinity b = (b = MinusInfinity)"
| "strict_eq (Str x) b = (b = Str x)"
| "strict_eq NaN b = False"
| "strict_eq (Arr xs) b = False"
| "strict_eq (Obj kvs) b = False"
| "strict_eq (Fun f) b = False"
| "strict_eq ObjectPrototype b = False"

text \<open>
  \<^verbatim>\<open>a == b\<close>. \<^verbatim>\<open>null\<close> and \<^verbatim>\<open>undefined\<close> equal each other and nothing else; two
  objects are different objects; an object facing a primitive is converted to one; two
  strings are compared as strings, and every other pair of primitives by their numbers,
  \<open>NaN\<close> being equal to nothing. At most one of the two is a string then, so a number
  with a fractional part is compared with a number that has none.
\<close>

definition is_nullish :: "jsval \<Rightarrow> bool" where
  "is_nullish v = (v = Undefined \<or> v = Null)"

definition prim_eq :: "jsval \<Rightarrow> jsval \<Rightarrow> bool" where
  "prim_eq a b =
     (if is_string a \<and> is_string b then a = b
      else (case (ToNumber a, ToNumber b) of (Some x, Some y) \<Rightarrow> x \<noteq> NaN \<and> x = y | _ \<Rightarrow> False))"

definition loose_eq :: "jsval \<Rightarrow> jsval \<Rightarrow> error + bool" where
  "loose_eq a b =
     (if is_nullish a \<or> is_nullish b then Inr (is_nullish a \<and> is_nullish b)
      else if is_object a \<and> is_object b then Inr False
      else (case ToPrimitive a of Inl e \<Rightarrow> Inl e | Inr pa \<Rightarrow>
            (case ToPrimitive b of Inl e \<Rightarrow> Inl e | Inr pb \<Rightarrow> Inr (prim_eq pa pb))))"

subsection \<open>Properties\<close>

text \<open>
  Reading \<^verbatim>\<open>o.k\<close> or \<^verbatim>\<open>o[k]\<close>. On \<^verbatim>\<open>null\<close> and \<^verbatim>\<open>undefined\<close> it throws. An
  object answers with its own property, and otherwise with what \<^verbatim>\<open>Object.prototype\<close>
  supplies: its methods, \<^verbatim>\<open>constructor\<close>, and under \<^verbatim>\<open>__proto__\<close> the prototype
  itself. For arrays, functions and primitive values the model covers the names the
  handlers read (\<^verbatim>\<open>name\<close>, \<^verbatim>\<open>id\<close>, \<^verbatim>\<open>user\<close>, \<^verbatim>\<open>action\<close>, \<^verbatim>\<open>status\<close>,
  \<^verbatim>\<open>points\<close>, \<^verbatim>\<open>co2\<close>), which their prototypes do not define.
\<close>

definition inherited :: "string \<Rightarrow> jsval" where
  "inherited k =
     (if k = ''constructor'' then Fun ''Object''
      else if k \<in> set [''toString'', ''toLocaleString'', ''valueOf'', ''hasOwnProperty'',
                       ''isPrototypeOf'', ''propertyIsEnumerable'', ''__defineGetter__'',
                       ''__defineSetter__'', ''__lookupGetter__'', ''__lookupSetter__'']
      then Fun k
      else Undefined)"

fun get_prop :: "jsval \<Rightarrow> string \<Rightarrow> error + jsval" where
  "get_prop Undefined k = Inl TypeError"
| "get_prop Null k = Inl TypeError"
| "get_prop (Obj kvs) k =
     Inr (case map_of kvs k of
            Some v \<Rightarrow> v
          | None \<Rightarrow> if k = ''__proto__'' then ObjectPrototype else inherited k)"
| "get_prop ObjectPrototype k = Inr (if k = ''__proto__'' then Null else inherited k)"
| "get_prop v k = Inr Undefined"

text \<open>
  Writing \<^verbatim>\<open>o.k = v\<close> (the file is not in strict mode). An object gets the property,
  in place when it has it already and at the end otherwise; \<^verbatim>\<open>__proto__\<close> is the one
  name whose assignment, when the object has no such property of its own, sets the
  prototype and adds nothing. On a primitive the assignment is dropped. On an array or a
  function it adds a property that \<^verbatim>\<open>JSON.stringify\<close> does not write and no handler
  reads back, so the value stays as it is; an index or \<^verbatim>\<open>length\<close> as the name is
  outside the model.
\<close>

fun put :: "string \<Rightarrow> jsval \<Rightarrow> (string \<times> jsval) list \<Rightarrow> (string \<times> jsval) list" where
  "put k v [] = [(k, v)]"
| "put k v (p # ps) = (if fst p = k then (k, v) # ps else p # put k v ps)"

fun set_prop :: "jsval \<Rightarrow> string \<Rightarrow> jsval \<Rightarrow> error + jsval" where
  "set_prop Undefined k v = Inl TypeError"
| "set_prop Null k v = Inl TypeError"
| "set_prop (Obj kvs) k v =
     Inr (if k = ''__proto__'' \<and> map_of kvs k = None then Obj kvs else Obj (put k v kvs))"
| "set_prop x k v = Inr x"

text \<open>
  \<^verbatim>\<open>Object.assign(target, source)\<close> assigns the source's own properties in order; the
  handler calls it with a target that is not \<^verbatim>\<open>null\<close> or \<^verbatim>\<open>undefined\<close>. An array as
  the source has its indices as names.
\<close>

fun assign_all :: "jsval \<Rightarrow> (string \<times> jsval) list \<Rightarrow> error + jsval" where
  "assign_all t [] = Inr t"
| "assign_all t (p # ps) =
     (case set_prop t (fst p) (snd p) of Inl e \<Rightarrow> Inl e | Inr t' \<Rightarrow> assign_all t' ps)"

definition own_properties :: "jsval \<Rightarrow> (string \<times> jsval) list" where
  "own_properties v =
     (case v of
        Obj kvs \<Rightarrow> kvs
      | Arr xs \<Rightarrow> zip (map digits [0..<length xs]) xs
      | Str s \<Rightarrow> zip (map digits [0..<length s]) (map (\<lambda>c. Str [c]) s)
      | _ \<Rightarrow> [])"

definition Object_assign :: "jsval \<Rightarrow> jsval \<Rightarrow> error + jsval" where
  "Object_assign target source = assign_all target (own_properties source)"

subsection \<open>Arrays\<close>

text \<open>
  \<^verbatim>\<open>arr.push(v)\<close> and \<^verbatim>\<open>arr.findIndex(f)\<close> exist on arrays only: on any other parsed
  value the call throws. \<open>findIndex\<close> answers \<open>None\<close> where the code gets \<open>-1\<close>, and
  the callback may throw.
\<close>

definition push :: "jsval \<Rightarrow> jsval \<Rightarrow> error + jsval" where
  "push arr v = (case arr of Arr xs \<Rightarrow> Inr (Arr (xs @ [v])) | _ \<Rightarrow> Inl TypeError)"

fun find_from :: "(jsval \<Rightarrow> error + bool) \<Rightarrow> jsval list \<Rightarrow> nat \<Rightarrow> error + nat option" where
  "find_from f [] i = Inr None"
| "find_from f (x # xs) i =
     (case f x of
        Inl e \<Rightarrow> Inl e
      | Inr b \<Rightarrow> if b then Inr (Some i) else find_from f xs (Suc i))"

definition findIndex :: "(jsval \<Rightarrow> error + bool) \<Rightarrow> jsval \<Rightarrow> error + nat option" where
  "findIndex f arr = (case arr of Arr xs \<Rightarrow> find_from f xs 0 | _ \<Rightarrow> Inl TypeError)"

text \<open>\<^verbatim>\<open>arr[i]\<close> and \<^verbatim>\<open>arr[i] = v\<close> at an index that \<open>findIndex\<close> returned.\<close>

definition at_index :: "jsval \<Rightarrow> nat \<Rightarrow> jsval" where
  "at_index arr i = (case arr of Arr xs \<Rightarrow> (if i < length xs then xs ! i else Undefined)
                     | _ \<Rightarrow> Undefined)"

definition set_index :: "jsval \<Rightarrow> nat \<Rightarrow> jsval \<Rightarrow> jsval" where
  "set_index arr i v = (case arr of Arr xs \<Rightarrow> (if i < length xs then Arr (xs[i := v]) else arr)
                        | _ \<Rightarrow> arr)"

subsection \<open>JSON\<close>

text \<open>
  What \<^verbatim>\<open>JSON.parse\<close> reads back from the text \<^verbatim>\<open>JSON.stringify\<close> writes:
  \<open>None\<close> where \<^verbatim>\<open>stringify\<close> returns \<^verbatim>\<open>undefined\<close>. A property whose value is
  \<^verbatim>\<open>undefined\<close> or a function is left out, such an element of an array is
  \<^verbatim>\<open>null\<close>, and so are \<open>NaN\<close> and the infinities.
\<close>

fun jsonify :: "jsval \<Rightarrow> jsval option" where
  "jsonify Undefined = None"
| "jsonify (Fun f) = None"
| "jsonify NaN = Some Null"
| "jsonify Infinity = Some Null"
| "jsonify MinusInfinity = Some Null"
| "jsonify ObjectPrototype = Some (Obj [])"
| "jsonify (Arr xs) =
     Some (Arr (map (\<lambda>x. case jsonify x of None \<Rightarrow> Null | Some y \<Rightarrow> y) xs))"
| "jsonify (Obj kvs) =
     Some (Obj (concat (map (\<lambda>kv. case jsonify (snd kv) of None \<Rightarrow> []
                                   | Some y \<Rightarrow> [(fst kv, y)]) kvs)))"
| "jsonify v = Some v"

section \<open>The record store\<close>

text \<open>
  A file of the data directory is seen through \<^verbatim>\<open>JSON.parse(fs.readFileSync(p, 'utf8'))\<close>:
  the file is not there and the read throws, or its text is no JSON and the parse throws, or
  it parses to a value. The three collections are three such files.
\<close>

datatype datafile = Absent | Corrupt | Json jsval

record store =
  reports :: datafile
  users :: datafile
  verifications :: datafile

definition parse_file :: "datafile \<Rightarrow> error + jsval" where
  "parse_file f = (case f of Absent \<Rightarrow> Inl ENOENT | Corrupt \<Rightarrow> Inl SyntaxError | Json v \<Rightarrow> Inr v)"

text \<open>\<^verbatim>\<open>readJson\<close>: \<^verbatim>\<open>try { return JSON.parse(...) } catch (e) { return [] }\<close>.\<close>

definition readJson :: "datafile \<Rightarrow> jsval" where
  "readJson f = (case parse_file f of Inl e \<Rightarrow> Arr [] | Inr v \<Rightarrow> v)"

text \<open>
  \<^verbatim>\<open>writeJson\<close> replaces the whole file by the text of the value;
  \<^verbatim>\<open>fs.writeFileSync\<close> throws when there is no text to write.
\<close>

definition writeJson :: "jsval \<Rightarrow> error + datafile" where
  "writeJson obj = (case jsonify obj of None \<Rightarrow> Inl TypeError | Some j \<Rightarrow> Inr (Json j))"

text \<open>
  A response is its status code and the JSON body the client reads (\<open>None\<close> for an empty
  body). \<open>caught\<close> is the \<^verbatim>\<open>catch\<close> block that ends every writing handler: what was
  written before the throw stays written.
\<close>

record response =
  code :: nat
  body :: "jsval option"

definition res_json :: "nat \<Rightarrow> jsval \<Rightarrow> response" where
  "res_json c obj = \<lparr>code = c, body = jsonify obj\<rparr>"

definition caught :: "store \<Rightarrow> store \<times> response" where
  "caught st = (st, res_json 500 (Obj [(''status'', Str ''error'')]))"

section \<open>Reports and users\<close>

definition reports_get :: "store \<Rightarrow> store \<times> response" where
  "reports_get st = (st, res_json 200 (readJson (reports st)))"

text \<open>
  \<^verbatim>\<open>POST /api/reports\<close>; \<open>now\<close> is \<^verbatim>\<open>Date.now()\<close> and \<open>stamp\<close> is
  \<^verbatim>\<open>new Date().toISOString()\<close>, here and below.
\<close>

definition reports_post :: "int \<Rightarrow> string \<Rightarrow> jsval \<Rightarrow> store \<Rightarrow> store \<times> response" where
  "reports_post now stamp rec0 st =
     (let arr = readJson (reports st) in
      case set_prop rec0 ''id'' (Num now) of Inl e \<Rightarrow> caught st | Inr rec1 \<Rightarrow>
      (case set_prop rec1 ''timestamp'' (Str stamp) of Inl e \<Rightarrow> caught st | Inr rec \<Rightarrow>
       (case push arr rec of Inl e \<Rightarrow> caught st | Inr arr' \<Rightarrow>
        (case writeJson arr' of Inl e \<Rightarrow> caught st | Inr f \<Rightarrow>
           (st\<lparr>reports := f\<rparr>, res_json 200 (Obj [(''status'', Str ''ok''), (''rec'', rec)]))))))"

definition users_get :: "store \<Rightarrow> store \<times> response" where
  "users_get st = (st, res_json 200 (readJson (users st)))"

text \<open>The callback \<^verbatim>\<open>x => x.name === n\<close> of the three searches by name.\<close>

definition name_is :: "jsval \<Rightarrow> jsval \<Rightarrow> error + bool" where
  "name_is n x = (case get_prop x ''name'' of Inl e \<Rightarrow> Inl e | Inr xn \<Rightarrow> Inr (strict_eq xn n))"

text \<open>
  \<^verbatim>\<open>POST /api/users\<close> with the body \<open>u\<close>: the first entry of that name takes the
  body's properties, or the body becomes a new entry. Nothing in the body is checked.
  (\<^verbatim>\<open>u.name\<close> is read inside the callback, once per entry.)
\<close>

definition users_post :: "jsval \<Rightarrow> store \<Rightarrow> store \<times> response" where
  "users_post u st =
     (let arr = readJson (users st) in
      case findIndex (\<lambda>x. case get_prop u ''name'' of Inl e \<Rightarrow> Inl e | Inr n \<Rightarrow> name_is n x) arr of
        Inl e \<Rightarrow> caught st
      | Inr (Some idx) \<Rightarrow>
          (case Object_assign (at_index arr idx) u of Inl e \<Rightarrow> caught st | Inr t \<Rightarrow>
           (case writeJson (set_index arr idx t) of Inl e \<Rightarrow> caught st | Inr f \<Rightarrow>
              (st\<lparr>users := f\<rparr>, res_json 200 (Obj [(''status'', Str ''ok'')]))))
      | Inr None \<Rightarrow>
          (case push arr u of Inl e \<Rightarrow> caught st | Inr arr' \<Rightarrow>
           (case writeJson arr' of Inl e \<Rightarrow> caught st | Inr f \<Rightarrow>
              (st\<lparr>users := f\<rparr>, res_json 200 (Obj [(''status'', Str ''ok'')])))))"

section \<open>Verification\<close>

text \<open>
  \<^verbatim>\<open>upload.single('image')\<close> runs before the handler and leaves in \<^verbatim>\<open>req.file\<close> the
  stored upload, or nothing when the form had no such part.
\<close>

record upload =
  size_file :: nat
  filename :: string
  originalname :: string

text \<open>\<^verbatim>\<open>action.toLowerCase()\<close>: only a string has the method.\<close>

definition call_toLowerCase :: "jsval \<Rightarrow> error + string" where
  "call_toLowerCase v = (case v of Str s \<Rightarrow> Inr (toLowerCase s) | _ \<Rightarrow> Inl TypeError)"

text \<open>The award of the auto-accept path (lines 125 and 129).\<close>

definition mapping_verify :: jsval where
  "mapping_verify =
     Obj [(''plant'', Obj [(''points'', Num 20), (''co2'', Num 20)]),
          (''clean'', Obj [(''points'', Num 10), (''co2'', Num 10)]),
          (''awareness'', Obj [(''points'', Num 5), (''co2'', Num 5)])]"

definition award_verify :: "jsval \<Rightarrow> error + jsval" where
  "award_verify action =
     (case call_toLowerCase action of Inl e \<Rightarrow> Inl e | Inr k \<Rightarrow>
      (case get_prop mapping_verify k of Inl e \<Rightarrow> Inl e | Inr m \<Rightarrow>
         Inr (js_or m (Obj [(''points'', Num 0), (''co2'', Num 0)]))))"

text \<open>
  The ledger credit of the auto-accept path (lines 133 to 139), from the parsed
  \<^verbatim>\<open>users.json\<close> to the array that is written back.
\<close>

definition credit_verify :: "jsval \<Rightarrow> jsval \<Rightarrow> jsval \<Rightarrow> error + jsval" where
  "credit_verify users0 user award =
     (case findIndex (name_is user) users0 of
        Inl e \<Rightarrow> Inl e
      | Inr (Some idx) \<Rightarrow>
          (case get_prop (at_index users0 idx) ''points'' of Inl e \<Rightarrow> Inl e | Inr p \<Rightarrow>
           (case get_prop award ''points'' of Inl e \<Rightarrow> Inl e | Inr ap \<Rightarrow>
            (case js_add (js_or p (Num 0)) ap of Inl e \<Rightarrow> Inl e | Inr p' \<Rightarrow>
             (case set_prop (at_index users0 idx) ''points'' p' of Inl e \<Rightarrow> Inl e | Inr e1 \<Rightarrow>
              (let users1 = set_index users0 idx e1 in
               case get_prop (at_index users1 idx) ''co2'' of Inl e \<Rightarrow> Inl e | Inr c \<Rightarrow>
               (case get_prop award ''co2'' of Inl e \<Rightarrow> Inl e | Inr ac \<Rightarrow>
                (case js_add (js_or c (Num 0)) ac of Inl e \<Rightarrow> Inl e | Inr c' \<Rightarrow>
                 (case set_prop (at_index users1 idx) ''co2'' c' of Inl e \<Rightarrow> Inl e | Inr e2 \<Rightarrow>
                    Inr (set_index users1 idx e2)))))))))
      | Inr None \<Rightarrow>
          (case get_prop award ''points'' of Inl e \<Rightarrow> Inl e | Inr ap \<Rightarrow>
           (case get_prop award ''co2'' of Inl e \<Rightarrow> Inl e | Inr ac \<Rightarrow>
              push users0 (Obj [(''name'', user), (''points'', ap), (''co2'', ac)]))))"

text \<open>The record of lines 111 to 119.\<close>

definition make_record :: "int \<Rightarrow> string \<Rightarrow> jsval \<Rightarrow> jsval \<Rightarrow> upload \<Rightarrow> bool \<Rightarrow> jsval" where
  "make_record now stamp user action f accepted =
     Obj [(''id'', Num now),
          (''user'', user),
          (''action'', action),
          (''filename'', Str (filename f)),
          (''originalName'', Str (originalname f)),
          (''status'', Str (if accepted then ''accepted'' else ''pending'')),
          (''timestamp'', Str stamp)]"

text \<open>
  \<^verbatim>\<open>POST /api/verify\<close>: \<open>user\<close> and \<open>action\<close> are \<^verbatim>\<open>req.body.user\<close> and
  \<^verbatim>\<open>req.body.action\<close> (\<open>Undefined\<close> when the form has no such field), \<open>req_file\<close> is
  \<^verbatim>\<open>req.file\<close>.
\<close>

definition verify :: "int \<Rightarrow> string \<Rightarrow> jsval \<Rightarrow> jsval \<Rightarrow> upload option \<Rightarrow> store \<Rightarrow> store \<times> response" where
  "verify now stamp user action req_file st =
     (case req_file of
        None \<Rightarrow> (st, res_json 400 (Obj [(''status'', Str ''error''), (''message'', Str ''Missing fields'')]))
      | Some f \<Rightarrow>
          if \<not> truthy user \<or> \<not> truthy action then
            (st, res_json 400 (Obj [(''status'', Str ''error''), (''message'', Str ''Missing fields'')]))
          else
            (let arr = readJson (verifications st);
                 accepted = (size_file f > 2048);
                 rec = make_record now stamp user action f accepted
             in
             case push arr rec of Inl e \<Rightarrow> caught st | Inr arr' \<Rightarrow>
             (case writeJson arr' of Inl e \<Rightarrow> caught st | Inr vf \<Rightarrow>
              (let st1 = st\<lparr>verifications := vf\<rparr> in
               if accepted then
                 (case award_verify action of Inl e \<Rightarrow> caught st1 | Inr award \<Rightarrow>
                  (case credit_verify (readJson (users st1)) user award of Inl e \<Rightarrow> caught st1 | Inr users' \<Rightarrow>
                   (case writeJson users' of Inl e \<Rightarrow> caught st1 | Inr uf \<Rightarrow>
                      (st1\<lparr>users := uf\<rparr>,
                       res_json 200 (Obj [(''status'', Str ''accepted''), (''id'', Num now), (''award'', award)])))))
               else
                 (st1, res_json 200 (Obj [(''status'', Str ''pending''), (''id'', Num now),
                                          (''filename'', Str (filename f))]))))))"

definition verifications_get :: "store \<Rightarrow> store \<times> response" where
  "verifications_get st = (st, res_json 200 (readJson (verifications st)))"

section \<open>Approval\<close>

text \<open>The callback \<^verbatim>\<open>x => x.id == id\<close>.\<close>

definition id_is :: "jsval \<Rightarrow> jsval \<Rightarrow> error + bool" where
  "id_is i x = (case get_prop x ''id'' of Inl e \<Rightarrow> Inl e | Inr xi \<Rightarrow> loose_eq xi i)"

text \<open>The award of the approval path (lines 171 and 172).\<close>

definition mapping_approve :: jsval where
  "mapping_approve =
     Obj [(''plant'', Obj [(''points'', Num 20), (''co2'', Num 20)]),
          (''clean'', Obj [(''points'', Num 10), (''co2'', Num 10)]),
          (''awareness'', Obj [(''points'', Num 5), (''co2'', Num 5)])]"

definition award_approve :: "jsval \<Rightarrow> error + jsval" where
  "award_approve action =
     (case call_toLowerCase action of Inl e \<Rightarrow> Inl e | Inr k \<Rightarrow>
      (case get_prop mapping_approve k of Inl e \<Rightarrow> Inl e | Inr m \<Rightarrow>
         Inr (js_or m (Obj [(''points'', Num 0), (''co2'', Num 0)]))))"

text \<open>The ledger credit of the approval path (lines 177 to 183).\<close>

definition credit_approve :: "jsval \<Rightarrow> jsval \<Rightarrow> jsval \<Rightarrow> error + jsval" where
  "credit_approve users0 userName award =
     (case findIndex (name_is userName) users0 of
        Inl e \<Rightarrow> Inl e
      | Inr (Some uidx) \<Rightarrow>
          (case get_prop (at_index users0 uidx) ''points'' of Inl e \<Rightarrow> Inl e | Inr p \<Rightarrow>
           (case get_prop award ''points'' of Inl e \<Rightarrow> Inl e | Inr ap \<Rightarrow>
            (case js_add (js_or p (Num 0)) ap of Inl e \<Rightarrow> Inl e | Inr p' \<Rightarrow>
             (case set_prop (at_index users0 uidx) ''points'' p' of Inl e \<Rightarrow> Inl e | Inr e1 \<Rightarrow>
              (let users1 = set_index users0 uidx e1 in
               case get_prop (at_index users1 uidx) ''co2'' of Inl e \<Rightarrow> Inl e | Inr c \<Rightarrow>
               (case get_prop award ''co2'' of Inl e \<Rightarrow> Inl e | Inr ac \<Rightarrow>
                (case js_add (js_or c (Num 0)) ac of Inl e \<Rightarrow> Inl e | Inr c' \<Rightarrow>
                 (case set_prop (at_index users1 uidx) ''co2'' c' of Inl e \<Rightarrow> Inl e | Inr e2 \<Rightarrow>
                    Inr (set_index users1 uidx e2)))))))))
      | Inr None \<Rightarrow>
          (case get_prop award ''points'' of Inl e \<Rightarrow> Inl e | Inr ap \<Rightarrow>
           (case get_prop award ''co2'' of Inl e \<Rightarrow> Inl e | Inr ac \<Rightarrow>
              push users0 (Obj [(''name'', userName), (''points'', ap), (''co2'', ac)]))))"

text \<open>
  \<^verbatim>\<open>POST /api/verifications/approve\<close> with \<open>id0\<close> the \<^verbatim>\<open>id\<close> of the JSON body
  (\<open>Undefined\<close> when it has none). The status is set and written before the award is
  computed, whatever the status was.
\<close>

definition approve :: "jsval \<Rightarrow> store \<Rightarrow> store \<times> response" where
  "approve id0 st =
     (let arr = readJson (verifications st) in
      case findIndex (id_is id0) arr of
        Inl e \<Rightarrow> caught st
      | Inr None \<Rightarrow> (st, res_json 404 (Obj [(''status'', Str ''error''), (''message'', Str ''Not found'')]))
      | Inr (Some idx) \<Rightarrow>
          (case set_prop (at_index arr idx) ''status'' (Str ''accepted'') of Inl e \<Rightarrow> caught st | Inr r \<Rightarrow>
           (let arr1 = set_index arr idx r in
            case writeJson arr1 of Inl e \<Rightarrow> caught st | Inr vf \<Rightarrow>
            (let st1 = st\<lparr>verifications := vf\<rparr> in
             case get_prop (at_index arr1 idx) ''action'' of Inl e \<Rightarrow> caught st1 | Inr action \<Rightarrow>
             (case award_approve action of Inl e \<Rightarrow> caught st1 | Inr award \<Rightarrow>
              (case get_prop (at_index arr1 idx) ''user'' of Inl e \<Rightarrow> caught st1 | Inr userName \<Rightarrow>
               (case credit_approve (readJson (users st1)) userName award of Inl e \<Rightarrow> caught st1 | Inr users' \<Rightarrow>
                (case writeJson users' of Inl e \<Rightarrow> caught st1 | Inr uf \<Rightarrow>
                   (st1\<lparr>users := uf\<rparr>,
                    res_json 200 (Obj [(''status'', Str ''ok''), (''award'', award)]))))))))))"

text \<open>The data directory after start-up: \<^verbatim>\<open>ensureFile\<close> has written \<^verbatim>\<open>[]\<close> to each file.\<close>

definition fresh :: store where
  "fresh = \<lparr>reports = Json (Arr []), users = Json (Arr []), verifications = Json (Arr [])\<rparr>"

section \<open>Notions for the statements\<close>

text \<open>
  A value that \<^verbatim>\<open>JSON.parse\<close> returns for a text that \<^verbatim>\<open>JSON.stringify\<close> wrote;
  the content of a file is one. Its numbers are doubles.
\<close>

fun is_json :: "jsval \<Rightarrow> bool" where
  "is_json Undefined = False"
| "is_json NaN = False"
| "is_json Infinity = False"
| "is_json MinusInfinity = False"
| "is_json (Num n) = is_double n"
| "is_json (Fun f) = False"
| "is_json ObjectPrototype = False"
| "is_json (Arr xs) = (\<forall>x\<in>set xs. is_json x)"
| "is_json (Obj kvs) = (\<forall>kv\<in>set kvs. is_json (snd kv))"
| "is_json v = True"

text \<open>
  A ledger entry is an object whose \<^verbatim>\<open>points\<close> and \<^verbatim>\<open>co2\<close> are each a number or
  missing; \<open>amount\<close> is one of them, a missing one being 0. An entry is \<open>named n\<close>
  when \<open>n\<close> is the value of its own property \<^verbatim>\<open>name\<close>. \<open>balance\<close> is the amount
  of the first entry of a name, and 0 when the name has no entry. These notions are
  stated on the properties of the entries themselves, not through the searches of the
  handlers.
\<close>

definition is_count :: "jsval option \<Rightarrow> bool" where
  "is_count v = (case v of None \<Rightarrow> True | Some (Num n) \<Rightarrow> True | _ \<Rightarrow> False)"

definition is_entry :: "jsval \<Rightarrow> bool" where
  "is_entry e =
     (case e of Obj kvs \<Rightarrow> is_count (map_of kvs ''points'') \<and> is_count (map_of kvs ''co2'')
      | _ \<Rightarrow> False)"

definition amount :: "jsval \<Rightarrow> string \<Rightarrow> int" where
  "amount e k =
     (case e of
        Obj kvs \<Rightarrow> (case map_of kvs k of Some (Num n) \<Rightarrow> n | _ \<Rightarrow> 0)
      | _ \<Rightarrow> 0)"

definition named :: "jsval \<Rightarrow> jsval \<Rightarrow> bool" where
  "named n e = (case e of Obj kvs \<Rightarrow> map_of kvs ''name'' = Some n | _ \<Rightarrow> False)"

text \<open>
  The entry with the properties \<open>kvs\<close> after \<open>p\<close> points and \<open>c\<close> CO2 units more:
  \<open>credited\<close> with the sums of the integers, and \<open>credited_double\<close> with the doubles
  nearest to them, which are the same up to \<open>2^53\<close>.
\<close>

definition credited :: "(string \<times> jsval) list \<Rightarrow> int \<Rightarrow> int \<Rightarrow> jsval" where
  "credited kvs p c =
     Obj (put ''co2'' (Num (amount (Obj kvs) ''co2'' + c))
           (put ''points'' (Num (amount (Obj kvs) ''points'' + p)) kvs))"

definition credited_double :: "(string \<times> jsval) list \<Rightarrow> int \<Rightarrow> int \<Rightarrow> jsval" where
  "credited_double kvs p c =
     Obj (put ''co2'' (double_of (amount (Obj kvs) ''co2'' + c))
           (put ''points'' (double_of (amount (Obj kvs) ''points'' + p)) kvs))"

definition balance :: "jsval list \<Rightarrow> jsval \<Rightarrow> string \<Rightarrow> int" where
  "balance es n k = (case find (named n) es of None \<Rightarrow> 0 | Some e \<Rightarrow> amount e k)"

text \<open>A parsed users collection that is a list of ledger entries.\<close>

definition ledger :: "jsval \<Rightarrow> bool" where
  "ledger v = (is_json v \<and> (case v of Arr es \<Rightarrow> (\<forall>e\<in>set es. is_entry e) | _ \<Rightarrow> False))"




text \<open>
  A verification record as \<open>verify\<close> writes it for a form with text fields: an object
  whose \<^verbatim>\<open>id\<close> is a number and whose \<^verbatim>\<open>user\<close> and \<^verbatim>\<open>action\<close> are strings.
\<close>

definition is_verification :: "jsval \<Rightarrow> bool" where
  "is_verification r =
     (case r of
        Obj kvs \<Rightarrow>
          (case map_of kvs ''id'' of Some (Num n) \<Rightarrow> True | _ \<Rightarrow> False) \<and>
          (case map_of kvs ''user'' of Some (Str u) \<Rightarrow> True | _ \<Rightarrow> False) \<and>
          (case map_of kvs ''action'' of Some (Str a) \<Rightarrow> True | _ \<Rightarrow> False)
      | _ \<Rightarrow> False)"

text \<open>
  The award mapping in the words of the specification: the lower-cased action gives the
  pair of points and CO2 units, an unknown action gives none of either. \<open>award_of\<close> is
  the object of such a pair.
\<close>

definition AwardMapping :: "string \<Rightarrow> int \<times> int" where
  "AwardMapping k =
     (if k = ''plant'' then (20, 20)
      else if k = ''clean'' then (10, 10)
      else if k = ''awareness'' then (5, 5)
      else (0, 0))"

definition award_of :: "int \<times> int \<Rightarrow> jsval" where
  "award_of a = Obj [(''points'', Num (fst a)), (''co2'', Num (snd a))]"

text \<open>
  A store for the examples: \<^verbatim>\<open>Ava\<close> has submitted a photo of 3000 bytes for the
  action \<^verbatim>\<open>plant\<close> at time 1000, and it was accepted.
\<close>

definition photo :: upload where
  "photo = \<lparr>size_file = 3000, filename = ''1000-1.jpg'', originalname = ''tree.jpg''\<rparr>"

definition submitted :: store where
  "submitted =
     \<lparr>reports = Json (Arr []),
      users = Json (Arr [Obj [(''name'', Str ''Ava''), (''points'', Num 20), (''co2'', Num 20)]]),
      verifications = Json (Arr [Obj [(''id'', Num 1000), (''user'', Str ''Ava''),
        (''action'', Str ''plant''), (''filename'', Str ''1000-1.jpg''),
        (''originalName'', Str ''tree.jpg''), (''status'', Str ''accepted''),
        (''timestamp'', Str ''2026-01-01T00:00:00.000Z'')]])\<rparr>"

text \<open>
  The same store after \<^verbatim>\<open>Ben\<close> has submitted a small photo for \<^verbatim>\<open>clean\<close> at time
  2000, which waits for approval.
\<close>

definition waiting :: store where
  "waiting =
     \<lparr>reports = Json (Arr []),
      users = Json (Arr [Obj [(''name'', Str ''Ava''), (''points'', Num 20), (''co2'', Num 20)]]),
      verifications = Json (Arr [
        Obj [(''id'', Num 1000), (''user'', Str ''Ava''),
             (''action'', Str ''plant''), (''filename'', Str ''1000-1.jpg''),
             (''originalName'', Str ''tree.jpg''), (''status'', Str ''accepted''),
             (''timestamp'', Str ''2026-01-01T00:00:00.000Z'')],
        Obj [(''id'', Num 2000), (''user'', Str ''Ben''),
             (''action'', Str ''clean''), (''filename'', Str ''2000-7.jpg''),
             (''originalName'', Str ''street.jpg''), (''status'', Str ''pending''),
             (''timestamp'', Str ''2026-01-02T00:00:00.000Z'')]])\<rparr>"

section \<open>Facts about the language model\<close>

subsection \<open>JSON values\<close>

text \<open>
  Writing a parsed value and reading it back gives the same value.
\<close>

lemma concat_singletons: "(\<forall>x\<in>set xs. g x = [x]) \<Longrightarrow> concat (map g xs) = xs"
  by (induction xs) simp_all

lemma jsonify_is_json: "is_json v \<Longrightarrow> jsonify v = Some v"
proof (induction v)
  case (Arr xs)
  then have "map (\<lambda>x. case jsonify x of None \<Rightarrow> Null | Some y \<Rightarrow> y) xs = xs"
    by (intro map_idI) simp
  then show ?case by simp
next
  case (Obj kvs)
  have "\<forall>kv\<in>set kvs. (case jsonify (snd kv) of None \<Rightarrow> [] | Some y \<Rightarrow> [(fst kv, y)]) = [kv]"
  proof
    fix kv assume kv: "kv \<in> set kvs"
    then have "is_json (snd kv)" using Obj.prems by simp
    moreover have "snd kv \<in> Basic_BNFs.snds kv" by (cases kv) simp
    ultimately have "jsonify (snd kv) = Some (snd kv)" using Obj.IH kv by blast
    then show "(case jsonify (snd kv) of None \<Rightarrow> [] | Some y \<Rightarrow> [(fst kv, y)]) = [kv]" by simp
  qed
  then show ?case by (simp add: concat_singletons)
qed simp_all

lemma writeJson_json: "is_json v \<Longrightarrow> writeJson v = Inr (Json v)"
  by (simp add: writeJson_def jsonify_is_json)

lemma res_json_json: "is_json v \<Longrightarrow> res_json c v = \<lparr>code = c, body = Some v\<rparr>"
  by (simp add: res_json_def jsonify_is_json)

lemma map_of_put: "map_of (put k v kvs) k' = (if k' = k then Some v else map_of kvs k')"
  by (induction kvs) auto

lemma set_put: "set (put k v kvs) \<subseteq> insert (k, v) (set kvs)"
  by (induction kvs) auto

lemma is_json_put: "is_json (Obj kvs) \<Longrightarrow> is_json v \<Longrightarrow> is_json (Obj (put k v kvs))"
  using set_put [of k v kvs] by auto

lemma is_json_snoc: "is_json (Arr xs) \<Longrightarrow> is_json x \<Longrightarrow> is_json (Arr (xs @ [x]))"
  by auto

lemma is_json_update: "is_json (Arr xs) \<Longrightarrow> is_json x \<Longrightarrow> is_json (Arr (xs[k := x]))"
  by (auto dest: set_update_subset_insert [THEN subsetD])

lemma is_json_nth: "is_json (Arr xs) \<Longrightarrow> i < length xs \<Longrightarrow> is_json (xs ! i)"
  by simp



lemma is_json_make_record:
  "is_double now \<Longrightarrow> is_json user \<Longrightarrow> is_json action
   \<Longrightarrow> is_json (make_record now stamp user action f b)"
  by (simp add: make_record_def)

subsection \<open>Searching an array\<close>

text \<open>
  \<open>find_from\<close> answers the first index at which the callback is true, provided the
  callback throws at no element before it.
\<close>

lemma find_from_none: "(\<forall>x\<in>set xs. f x = Inr False) \<Longrightarrow> find_from f xs i = Inr None"
  by (induction xs arbitrary: i) simp_all

lemma find_from_first:
  "k < length xs \<Longrightarrow> f (xs ! k) = Inr True \<Longrightarrow> (\<forall>j<k. f (xs ! j) = Inr False)
   \<Longrightarrow> find_from f xs i = Inr (Some (i + k))"
proof (induction xs arbitrary: i k)
  case Nil
  then show ?case by simp
next
  case (Cons x xs)
  show ?case
  proof (cases k)
    case 0
    with Cons.prems show ?thesis by simp
  next
    case (Suc m)
    have "f x = Inr False" using Cons.prems(3) Suc by auto
    moreover have "find_from f xs (Suc i) = Inr (Some (Suc i + m))"
      using Cons.prems Suc by (intro Cons.IH) auto
    ultimately show ?thesis using Suc by simp
  qed
qed

lemma find_from_bound: "find_from f xs j = Inr (Some i) \<Longrightarrow> j \<le> i \<and> i < j + length xs"
proof (induction xs arbitrary: j)
  case Nil
  then show ?case by simp
next
  case (Cons x xs)
  then show ?case
    by (fastforce split: sum.splits if_splits)
qed


lemma find_from_cases:
  assumes "\<forall>x\<in>set xs. \<exists>b. f x = Inr b"
  obtains (absent) "\<forall>x\<in>set xs. f x = Inr False"
  | (first) k where "k < length xs" "f (xs ! k) = Inr True" "\<forall>j<k. f (xs ! j) = Inr False"
proof (cases "\<exists>k<length xs. f (xs ! k) = Inr True")
  case False
  have "\<forall>x\<in>set xs. f x = Inr False"
  proof
    fix x assume x: "x \<in> set xs"
    then obtain b where b: "f x = Inr b" using assms by blast
    from x obtain k where "k < length xs" "xs ! k = x" by (auto simp: in_set_conv_nth)
    with False b show "f x = Inr False" by (cases b) auto
  qed
  then show ?thesis by (rule absent)
next
  case True
  define k where "k = (LEAST k. k < length xs \<and> f (xs ! k) = Inr True)"
  have k: "k < length xs \<and> f (xs ! k) = Inr True"
    unfolding k_def using True by (rule LeastI_ex)
  have "\<forall>j<k. f (xs ! j) = Inr False"
  proof (intro allI impI)
    fix j assume j: "j < k"
    then have "\<not> (j < length xs \<and> f (xs ! j) = Inr True)"
      unfolding k_def by (rule not_less_Least)
    moreover have "j < length xs" using j k by simp
    moreover obtain b where "f (xs ! j) = Inr b"
      using assms \<open>j < length xs\<close> by (metis nth_mem)
    ultimately show "f (xs ! j) = Inr False" by (cases b) auto
  qed
  with k show ?thesis by (intro first [of k]) simp_all
qed

lemma find_from_throws:
  assumes "\<forall>x\<in>set xs. f x \<noteq> Inr True" and "\<not> (\<forall>x\<in>set xs. f x = Inr False)"
  shows "\<exists>e. find_from f xs i = Inl e"
  using assms
proof (induction xs arbitrary: i)
  case Nil
  then show ?case by simp
next
  case (Cons x xs)
  show ?case
  proof (cases "f x")
    case (Inl e)
    then show ?thesis by simp
  next
    case (Inr b)
    with Cons.prems(1) have b: "f x = Inr False" by (cases b) simp_all
    with Cons.prems have "\<exists>e. find_from f xs (Suc i) = Inl e"
      by (intro Cons.IH) simp_all
    with b show ?thesis by simp
  qed
qed

lemma find_first:
  "k < length es \<Longrightarrow> P (es ! k) \<Longrightarrow> \<forall>j<k. \<not> P (es ! j) \<Longrightarrow> find P es = Some (es ! k)"
  by (auto simp: find_Some_iff)

lemma find_update:
  assumes "k < length es" and "P e" and "\<forall>j<k. \<not> P (es ! j)"
  shows "find P (es[k := e]) = Some e"
proof -
  have "find P (es[k := e]) = Some ((es[k := e]) ! k)"
    using assms by (intro find_first) simp_all
  then show ?thesis using assms(1) by simp
qed

lemma find_snoc:
  "find P (xs @ [y]) = (case find P xs of None \<Rightarrow> (if P y then Some y else None) | Some x \<Rightarrow> Some x)"
  by (induction xs) simp_all

lemma count_update:
  "k < length es \<Longrightarrow> P e = P (es ! k) \<Longrightarrow> length (filter P (es[k := e])) = length (filter P es)"
proof (induction es arbitrary: k)
  case Nil
  then show ?case by simp
next
  case (Cons x xs)
  then show ?case by (cases k) simp_all
qed

lemma count_positive: "k < length es \<Longrightarrow> P (es ! k) \<Longrightarrow> 0 < length (filter P es)"
  by (metis filter_empty_conv length_greater_0_conv nth_mem)

lemma count_none: "find P es = None \<Longrightarrow> length (filter P es) = 0"
  by (simp add: find_None_iff filter_empty_conv)

subsection \<open>Doubles\<close>

text \<open>
  The number of bits of a natural number, and the integers that rounding leaves alone:
  those whose bits beyond the 53rd are all 0, every integer up to \<open>2^53\<close> among them.
\<close>

lemma bit_length_0: "bit_length 0 = 0"
  by (simp add: bit_length.simps [of 0])

lemma bit_length_le: "a < 2 ^ k \<Longrightarrow> bit_length a \<le> k"
proof (induction k arbitrary: a)
  case 0
  then show ?case by (simp add: bit_length_0)
next
  case (Suc k)
  have "a div 2 < 2 ^ k" using Suc.prems by simp
  then have "bit_length (a div 2) \<le> k" by (rule Suc.IH)
  then show ?case by (simp add: bit_length.simps [of a])
qed




lemma round_nat_exact: "2 ^ (bit_length a - 53) dvd a \<Longrightarrow> round_nat a = a"
  by (simp add: round_nat_def Let_def)

lemma round_nat_small: "a \<le> 2 ^ 53 \<Longrightarrow> round_nat a = a"
proof (rule round_nat_exact, cases "a = 2 ^ 53")
  case True
  have "(2::nat) ^ 53 < 2 ^ 54" by simp
  then have "bit_length a \<le> 54" unfolding True by (rule bit_length_le)
  then have "bit_length a - 53 \<le> 53" by simp
  then show "2 ^ (bit_length a - 53) dvd a" unfolding True by (rule le_imp_power_dvd)
next
  case False
  assume "a \<le> 2 ^ 53"
  with False have "a < 2 ^ 53" by simp
  then have "bit_length a \<le> 53" by (rule bit_length_le)
  then show "2 ^ (bit_length a - 53) dvd a" by simp
qed

lemma double_of_small: "\<bar>n\<bar> \<le> 2 ^ 53 \<Longrightarrow> double_of n = Num n"
proof -
  assume n: "\<bar>n\<bar> \<le> 2 ^ 53"
  then have "nat \<bar>n\<bar> \<le> 2 ^ 53" by (simp add: nat_le_iff)
  then have r: "round_nat (nat \<bar>n\<bar>) = nat \<bar>n\<bar>" by (rule round_nat_small)
  have "nat \<bar>n\<bar> \<le> 2 ^ 53" by fact
  also have "(2::nat) ^ 53 < 2 ^ 1024" by simp
  finally have "\<not> 2 ^ 1024 \<le> nat \<bar>n\<bar>" by simp
  then show ?thesis unfolding double_of_def r Let_def by auto
qed

lemma is_double_small: "\<bar>n\<bar> \<le> 2 ^ 53 \<Longrightarrow> is_double n"
  by (simp add: is_double_def double_of_small)

lemma double_of_minus: "double_of (- n) = negate (double_of n)"
  by (cases "n = 0") (auto simp: double_of_def negate_def Let_def round_nat_small)









text \<open>
  Beyond \<open>2^53\<close> not every integer is a double: \<open>2^53 + 5\<close> lies between the
  doubles \<open>2^53 + 4\<close> and \<open>2^53 + 6\<close>, and the first has the even factor.
\<close>

lemma bit_length_54: "bit_length 9007199254740997 = 54"
  by (simp add: bit_length.simps)

lemma double_of_beyond: "double_of 9007199254740997 = Num 9007199254740996"
  by (simp add: double_of_def round_nat_def bit_length_54)

lemma is_double_2_53: "is_double 9007199254740992"
  by (simp add: is_double_small)

subsection \<open>Decimal numerals\<close>

text \<open>
  Reading the decimal form of an integer gives the double of that integer, so
  \<^verbatim>\<open>==\<close> between a number and the decimal form of a double compares the numbers.
\<close>

lemma digit_value_digit_char: "d < 10 \<Longrightarrow> digit_value (digit_char d) = Some d"
proof -
  assume "d < 10"
  then have "d \<in> {0, 1, 2, 3, 4, 5, 6, 7, 8, 9}" by auto
  then show ?thesis
    by (elim insertE emptyE) (simp_all add: digit_value_def digit_char_def)
qed

lemma digit_char_in: "d < 10 \<Longrightarrow> digit_char d \<in> set ''0123456789''"
  unfolding digit_char_def by (rule nth_mem) simp

lemma digits_value_append:
  "digits_value acc (xs @ ys) =
     (case digits_value acc xs of None \<Rightarrow> None | Some a \<Rightarrow> digits_value a ys)"
  by (induction xs arbitrary: acc) (auto split: option.splits)

lemma digits_value_digits: "digits_value acc (digits n) = Some (acc * 10 ^ length (digits n) + n)"
proof (induction n arbitrary: acc rule: digits.induct)
  case (1 n)
  show ?case
  proof (cases "n < 10")
    case True
    then show ?thesis
      by (simp add: digits.simps [of n] digit_value_digit_char)
  next
    case False
    have m: "n mod 10 < 10" by simp
    have "digits_value acc (digits n) =
        digits_value (acc * 10 ^ length (digits (n div 10)) + n div 10) [digit_char (n mod 10)]"
      using False 1 [OF False, of acc]
      by (simp add: digits.simps [of n] digits_value_append)
    also have "\<dots> = Some (10 * (acc * 10 ^ length (digits (n div 10)) + n div 10) + n mod 10)"
      using m by (simp add: digit_value_digit_char)
    also have "\<dots> = Some (acc * 10 ^ length (digits n) + n)"
      using False by (simp add: digits.simps [of n] algebra_simps)
    finally show ?thesis .
  qed
qed

lemma digits_nonempty: "digits n \<noteq> []"
  by (simp add: digits.simps [of n])

lemma digits_chars: "c \<in> set (digits n) \<Longrightarrow> c \<in> set ''0123456789''"
proof (induction n rule: digits.induct)
  case (1 n)
  show ?case
  proof (cases "n < 10")
    case True
    with 1(2) digit_char_in [of n] show ?thesis
      by (simp add: digits.simps [of n])
  next
    case False
    have "n mod 10 < 10" by simp
    with False 1 digit_char_in [of "n mod 10"] show ?thesis
      by (auto simp: digits.simps [of n])
  qed
qed

lemma trim_id:
  assumes "s \<noteq> []" and "\<not> is_space (hd s)" and "\<not> is_space (last s)"
  shows "trim s = s"
proof -
  have keep: "dropWhile is_space xs = xs" if "xs \<noteq> []" and "\<not> is_space (hd xs)" for xs
    using that by (cases xs) simp_all
  have "rev s \<noteq> []" and "\<not> is_space (hd (rev s))"
    using assms(1,3) by (simp_all add: hd_rev)
  then have "dropWhile is_space (rev s) = rev s"
    by (rule keep)
  with keep [OF assms(1,2)] show ?thesis
    by (simp add: trim_def)
qed

lemma digit_not_special:
  assumes "c \<in> set ''0123456789''"
  shows "\<not> is_space c" and "c \<noteq> CHR ''-''" and "c \<noteq> CHR ''+''"
  using assms by (auto simp: is_space_def)

lemma digit_is_digit: "c \<in> set ''0123456789'' \<Longrightarrow> is_digit c"
  by (auto simp: is_digit_def digit_value_def)

lemma digit_no_letter:
  assumes "c \<in> set ''0123456789''"
  shows "c \<notin> {CHR ''x'', CHR ''X'', CHR ''o'', CHR ''O'', CHR ''b'', CHR ''B'', CHR ''I''}"
  using assms by auto

lemma radix_literal_digits: "radix_literal (digits a) = None"
proof (cases "digits a")
  case Nil
  then show ?thesis by (simp add: radix_literal_def)
next
  case c0: (Cons c0 r0)
  show ?thesis
  proof (cases r0)
    case Nil
    with c0 show ?thesis by (simp add: radix_literal_def)
  next
    case (Cons c1 r1)
    have "c1 \<in> set (digits a)" using c0 Cons by simp
    from digit_no_letter [OF digits_chars [OF this]] show ?thesis
      using c0 Cons by (simp add: radix_literal_def split: list.splits)
  qed
qed

lemma radix_literal_minus: "radix_literal (CHR ''-'' # d) = None"
  by (simp add: radix_literal_def split: list.splits)

lemma decimal_literal_digits: "decimal_literal (digits a) = Some (a, 0)"
proof -
  have all: "\<forall>c\<in>set (digits a). is_digit c"
    using digits_chars digit_is_digit by blast
  then have t: "takeWhile is_digit (digits a) = digits a"
    by (simp add: takeWhile_eq_all_conv)
  from all have d: "dropWhile is_digit (digits a) = []"
    by simp
  have "digits_value 0 (digits a) = Some a"
    using digits_value_digits [of 0 a] by simp
  then show ?thesis
    by (simp add: decimal_literal_def t d digits_nonempty exponent_part_def)
qed

lemma digits_not_Infinity: "digits a \<noteq> ''Infinity''"
proof
  assume "digits a = ''Infinity''"
  then have "CHR ''I'' \<in> set (digits a)" by simp
  from digit_no_letter [OF digits_chars [OF this]] show False by simp
qed

lemma StringToNumber_digits: "StringToNumber (digits a) = Some (double_of (int a))"
proof -
  let ?t = "digits a"
  have ne: "?t \<noteq> []" by (rule digits_nonempty)
  then have h: "hd ?t \<in> set ?t" and l: "last ?t \<in> set ?t" by simp_all
  have hs: "\<not> is_space (hd ?t)" "hd ?t \<noteq> CHR ''-''" "hd ?t \<noteq> CHR ''+''"
    using digit_not_special [OF digits_chars [OF h]] by simp_all
  have ls: "\<not> is_space (last ?t)"
    using digit_not_special(1) [OF digits_chars [OF l]] .
  have t: "trim ?t = ?t"
    using ne hs(1) ls by (rule trim_id)
  show ?thesis
    using ne hs(2,3)
    by (simp add: StringToNumber_def t radix_literal_digits decimal_literal_digits
        digits_not_Infinity)
qed

lemma StringToNumber_minus_digits:
  "StringToNumber (CHR ''-'' # digits a) = Some (double_of (- int a))"
proof -
  let ?d = "digits a"
  let ?t = "CHR ''-'' # ?d"
  have ne: "?d \<noteq> []" by (rule digits_nonempty)
  then have l: "last ?d \<in> set ?d" by simp
  have "\<not> is_space (last ?t)"
    using ne digit_not_special(1) [OF digits_chars [OF l]] by simp
  moreover have "\<not> is_space (hd ?t)" by (simp add: is_space_def)
  ultimately have t: "trim ?t = ?t"
    by (intro trim_id) simp_all
  show ?thesis
    by (simp add: StringToNumber_def t radix_literal_minus decimal_literal_digits
        digits_not_Infinity double_of_minus)
qed

lemma StringToNumber_Number_toString:
  "StringToNumber (Number_toString n) = Some (double_of n)"
proof (cases "n < 0")
  case False
  then show ?thesis
    by (simp add: Number_toString_def StringToNumber_digits)
next
  case True
  then have "- int (nat (- n)) = n" by simp
  with True show ?thesis
    by (simp add: Number_toString_def StringToNumber_minus_digits)
qed

lemma loose_eq_Num_Str:
  "is_double n \<Longrightarrow> loose_eq (Num m) (Str (Number_toString n)) = Inr (m = n)"
  by (auto simp: loose_eq_def is_nullish_def is_object_def ToPrimitive_def prim_eq_def
      is_string_def StringToNumber_Number_toString is_double_def)

text \<open>
  The other notations of a number are read as well: \<^verbatim>\<open>1000 == "1e3"\<close>.
\<close>

lemma loose_eq_exponent: "loose_eq (Num 1000) (Str ''1e3'') = Inr True"
  by (simp add: loose_eq_def is_nullish_def is_object_def ToPrimitive_def prim_eq_def is_string_def
      StringToNumber_def trim_def is_space_def radix_literal_def decimal_literal_def is_digit_def
      digit_value_def exponent_part_def unsigned_value_def double_of_small)

section \<open>The award mapping\<close>

text \<open>
  Lower-casing leaves no capital letter behind, and changes no other character.
\<close>

lemma lower_char_not_upper: "lower_char c \<notin> set ''ABCDEFGHIJKLMNOPQRSTUVWXYZ''"
  by (simp add: lower_char_def split: option.splits)

lemma toLowerCase_no_upper:
  "c \<in> set ''ABCDEFGHIJKLMNOPQRSTUVWXYZ'' \<Longrightarrow> c \<notin> set (toLowerCase s)"
  using lower_char_not_upper by (auto simp: toLowerCase_def)

lemma lower_char_keep: "c \<notin> set ''ABCDEFGHIJKLMNOPQRSTUVWXYZ'' \<Longrightarrow> lower_char c = c"
  unfolding lower_char_def by (subst map_of_zip_is_None [THEN iffD2]) simp_all

lemma lower_plant: "toLowerCase ''plant'' = ''plant''"
  by (simp add: toLowerCase_def lower_char_keep)

lemma lower_clean: "toLowerCase ''clean'' = ''clean''"
  by (simp add: toLowerCase_def lower_char_keep)

lemma lower_constructor: "toLowerCase ''constructor'' = ''constructor''"
  by (simp add: toLowerCase_def lower_char_keep)

text \<open>
  So the only inherited name a lower-cased key can hit, \<^verbatim>\<open>__proto__\<close> apart, is
  \<^verbatim>\<open>constructor\<close>: each method of \<^verbatim>\<open>Object.prototype\<close> has a capital in its name.
\<close>

lemma inherited_lower:
  assumes "k = toLowerCase a" and "k \<noteq> ''constructor''"
  shows "inherited k = Undefined"
proof -
  have "CHR ''S'' \<notin> set k" "CHR ''L'' \<notin> set k" "CHR ''O'' \<notin> set k"
    "CHR ''P'' \<notin> set k" "CHR ''G'' \<notin> set k" "CHR ''I'' \<notin> set k"
    using assms(1) by (simp_all add: toLowerCase_no_upper)
  then show ?thesis
    using assms(2) unfolding inherited_def by auto
qed

lemma inherited_amounts [simp]: "inherited ''points'' = Undefined" "inherited ''co2'' = Undefined"
  by (simp_all add: inherited_def)

text \<open>
  Outside the two inherited names the award is the one of the specification's mapping:
  the entry of a mapped action, and the zero award for every other action.
\<close>

lemma award_verify_default:
  assumes "toLowerCase a \<notin> {''plant'', ''clean'', ''awareness'', ''constructor'', ''__proto__''}"
  shows "award_verify (Str a) = Inr (Obj [(''points'', Num 0), (''co2'', Num 0)])"
  using assms inherited_lower [OF refl, of a]
  by (simp add: award_verify_def call_toLowerCase_def mapping_verify_def js_or_def)

lemma award_verify_AwardMapping:
  assumes "toLowerCase a \<notin> {''constructor'', ''__proto__''}"
  shows "award_verify (Str a) = Inr (award_of (AwardMapping (toLowerCase a)))"
proof (cases "toLowerCase a \<in> {''plant'', ''clean'', ''awareness''}")
  case True
  then show ?thesis
    by (auto simp: award_verify_def call_toLowerCase_def mapping_verify_def js_or_def
        AwardMapping_def award_of_def)
next
  case False
  with assms have "award_verify (Str a) = Inr (Obj [(''points'', Num 0), (''co2'', Num 0)])"
    by (intro award_verify_default) simp
  with False show ?thesis
    by (simp add: AwardMapping_def award_of_def)
qed



lemma award_approve_string: "\<exists>award. award_approve (Str a) = Inr award"
  by (simp add: award_approve_def call_toLowerCase_def mapping_approve_def)


text \<open>
  C9. The award of the auto-accept path and the award of the approval path are the same
  function of the action: the same lower-casing, the same three entries, the same default
  (and the same failure when the action is no string).
\<close>

theorem award_paths_agree: "award_verify action = award_approve action"
  unfolding award_verify_def award_approve_def mapping_verify_def mapping_approve_def
  by (rule refl)

text \<open>
  C5. The action \<^verbatim>\<open>constructor\<close> is none of \<^verbatim>\<open>plant\<close>, \<^verbatim>\<open>clean\<close>,
  \<^verbatim>\<open>awareness\<close>, yet its award is not the zero award on either path: the lookup in
  the object literal finds the inherited \<^verbatim>\<open>Object\<close> function, which is truthy, so the
  default after \<^verbatim>\<open>||\<close> is not taken.
\<close>

theorem award_constructor_not_zero:
  "award_verify (Str ''constructor'') = Inr (Fun ''Object'') \<and>
   award_approve (Str ''constructor'') = Inr (Fun ''Object'')"
  by (simp add: award_verify_def award_approve_def mapping_verify_def mapping_approve_def
      call_toLowerCase_def toLowerCase_def lower_char_def inherited_def js_or_def)

section \<open>Reading a collection\<close>

text \<open>
  C7. \<open>readJson\<close> returns a value for every file, and when the file cannot be read or
  its text cannot be parsed that value is the empty array: the failure does not reach the
  caller.
\<close>

theorem readJson_swallows: "parse_file f = Inl e \<Longrightarrow> readJson f = Arr []"
  by (simp add: readJson_def)

theorem readJson_swallows_witness:
  "parse_file Corrupt = Inl SyntaxError \<and> readJson Corrupt = Arr []"
  using readJson_swallows [of Corrupt SyntaxError] by (simp add: parse_file_def)

section \<open>Ledger credit\<close>

text \<open>
  The two copies of the credit are the same function.
\<close>

lemma credit_approve_eq: "credit_approve = credit_verify"
  unfolding credit_approve_def credit_verify_def by (rule refl)

text \<open>
  An amount that is a number or missing is incremented: \<^verbatim>\<open>(x || 0) + y\<close> is the
  double of the sum.
\<close>

lemma name_is_entry: "is_entry e \<Longrightarrow> \<exists>b. name_is n e = Inr b"
  by (cases e) (simp_all add: is_entry_def name_is_def)

lemma js_add_nums: "js_add (Num x) (Num y) = Inr (double_of (x + y))"
  by (simp add: js_add_def ToPrimitive_def is_object_def is_string_def num_add_def)

lemma js_or_count: "js_or (Num x) (Num 0) = Num x" "js_or Undefined (Num 0) = Num 0"
  by (simp_all add: js_or_def)

lemma add_count:
  assumes "is_count (map_of kvs k)" and "k = ''points'' \<or> k = ''co2''"
  shows "(case get_prop (Obj kvs) k of Inl e \<Rightarrow> Inl e
          | Inr v \<Rightarrow> js_add (js_or v (Num 0)) (Num p)) = Inr (double_of (amount (Obj kvs) k + p))"
proof (cases "map_of kvs k")
  case None
  then have "get_prop (Obj kvs) k = Inr Undefined"
    using assms(2) by auto
  then show ?thesis
    using None by (simp add: js_or_count js_add_nums amount_def)
next
  case (Some v)
  then obtain x where x: "v = Num x"
    using assms(1) by (cases v) (simp_all add: is_count_def)
  with Some have "get_prop (Obj kvs) k = Inr (Num x)"
    by simp
  then show ?thesis
    using Some x by (simp add: js_or_count js_add_nums amount_def)
qed

lemma credit_verify_existing:
  assumes k: "k < length es" and found: "find_from (name_is n) es 0 = Inr (Some k)"
    and e: "es ! k = Obj kvs"
    and pc: "is_count (map_of kvs ''points'')" "is_count (map_of kvs ''co2'')"
  shows "credit_verify (Arr es) n (Obj [(''points'', Num p), (''co2'', Num c)]) =
         Inr (Arr (es[k := credited_double kvs p c]))"
proof -
  have p: "(case get_prop (Obj kvs) ''points'' of Inl e \<Rightarrow> Inl e
          | Inr v \<Rightarrow> js_add (js_or v (Num 0)) (Num p)) = Inr (double_of (amount (Obj kvs) ''points'' + p))"
    using pc(1) by (intro add_count) simp_all
  let ?kvs1 = "put ''points'' (double_of (amount (Obj kvs) ''points'' + p)) kvs"
  have "map_of ?kvs1 ''co2'' = map_of kvs ''co2''"
    by (simp add: map_of_put)
  then have c1: "is_count (map_of ?kvs1 ''co2'')" and a1: "amount (Obj ?kvs1) ''co2'' = amount (Obj kvs) ''co2''"
    using pc(2) by (simp_all add: amount_def)
  have c: "(case get_prop (Obj ?kvs1) ''co2'' of Inl e \<Rightarrow> Inl e
          | Inr v \<Rightarrow> js_add (js_or v (Num 0)) (Num c)) = Inr (double_of (amount (Obj kvs) ''co2'' + c))"
    using add_count [OF c1, of c] a1 by simp
  show ?thesis
    using k found e p c
    by (simp add: credit_verify_def findIndex_def at_index_def set_index_def credited_double_def
        split: sum.splits)
qed

lemma credit_verify_new:
  assumes "find_from (name_is n) es 0 = Inr None"
  shows "credit_verify (Arr es) n (Obj [(''points'', Num p), (''co2'', Num c)]) =
         Inr (Arr (es @ [Obj [(''name'', n), (''points'', Num p), (''co2'', Num c)]]))"
  using assms by (simp add: credit_verify_def findIndex_def push_def)

lemma credit_verify_entries:
  assumes "\<forall>e\<in>set es. is_entry e"
  obtains (new) "\<forall>x\<in>set es. name_is n x = Inr False"
      "credit_verify (Arr es) n (award_of (p, c)) =
         Inr (Arr (es @ [Obj [(''name'', n), (''points'', Num p), (''co2'', Num c)]]))"
  | (existing) k kvs where "k < length es" "es ! k = Obj kvs" "name_is n (es ! k) = Inr True"
      "\<forall>j<k. name_is n (es ! j) = Inr False" "is_entry (Obj kvs)"
      "credit_verify (Arr es) n (award_of (p, c)) = Inr (Arr (es[k := credited_double kvs p c]))"
proof -
  have total: "\<forall>x\<in>set es. \<exists>b. name_is n x = Inr b"
    using assms name_is_entry by blast
  then show thesis
  proof (cases rule: find_from_cases)
    case absent
    have "find_from (name_is n) es 0 = Inr None"
      using absent by (rule find_from_none)
    then have "credit_verify (Arr es) n (award_of (p, c)) =
         Inr (Arr (es @ [Obj [(''name'', n), (''points'', Num p), (''co2'', Num c)]]))"
      unfolding award_of_def fst_conv snd_conv by (rule credit_verify_new)
    with absent show ?thesis by (rule new)
  next
    case (first k)
    have ent: "is_entry (es ! k)"
      using assms first(1) by simp
    then obtain kvs where kvs: "es ! k = Obj kvs"
      by (cases "es ! k") (simp_all add: is_entry_def)
    have counts: "is_count (map_of kvs ''points'')" "is_count (map_of kvs ''co2'')"
      using ent kvs by (simp_all add: is_entry_def)
    have "find_from (name_is n) es 0 = Inr (Some (0 + k))"
      using first by (intro find_from_first) simp_all
    then have "credit_verify (Arr es) n (award_of (p, c)) =
        Inr (Arr (es[k := credited_double kvs p c]))"
      unfolding award_of_def fst_conv snd_conv
      using first(1) kvs counts by (intro credit_verify_existing) simp_all
    then show ?thesis
      using first kvs ent by (intro existing [of k kvs]) simp_all
  qed
qed

text \<open>
  What the search \<^verbatim>\<open>x.name === user\<close> finds, for a string, is the entry whose own
  property \<^verbatim>\<open>name\<close> is that string; and up to \<open>2^53\<close> the two sums are exact.
\<close>

lemma strict_eq_Str: "strict_eq v (Str u) = (v = Str u)"
  by (cases v) auto

lemma name_is_Str: "name_is (Str u) (Obj kvs) = Inr (named (Str u) (Obj kvs))"
  by (simp add: name_is_def named_def strict_eq_Str inherited_def split: option.splits)

lemma named_entries:
  assumes "\<forall>e\<in>set es. is_entry e" and "x \<in> set es"
  shows "name_is (Str u) x = Inr (named (Str u) x)"
proof -
  have "is_entry x" using assms by simp
  then obtain kvs where "x = Obj kvs"
    by (cases x) (simp_all add: is_entry_def)
  then show ?thesis by (simp add: name_is_Str)
qed

lemma credited_exact:
  assumes "\<bar>amount (Obj kvs) ''points'' + p\<bar> \<le> 2 ^ 53"
    and "\<bar>amount (Obj kvs) ''co2'' + c\<bar> \<le> 2 ^ 53"
  shows "credited_double kvs p c = credited kvs p c"
  using assms by (simp add: credited_double_def credited_def double_of_small)

lemma named_credited: "named n (credited kvs p c) = named n (Obj kvs)"
  by (simp add: named_def credited_def map_of_put)

lemma named_new: "named (Str u) (Obj ((''name'', Str u) # kvs))"
  by (simp add: named_def)

lemma amount_credited:
  "amount (credited kvs p c) ''points'' = amount (Obj kvs) ''points'' + p"
  "amount (credited kvs p c) ''co2'' = amount (Obj kvs) ''co2'' + c"
  by (simp_all add: credited_def amount_def map_of_put)

lemma is_entry_credited: "is_entry (credited kvs p c)"
  by (simp add: is_entry_def credited_def map_of_put is_count_def)

lemma is_json_credited:
  "is_json (Obj kvs) \<Longrightarrow> is_double (amount (Obj kvs) ''points'' + p)
   \<Longrightarrow> is_double (amount (Obj kvs) ''co2'' + c) \<Longrightarrow> is_json (credited kvs p c)"
  unfolding credited_def by (intro is_json_put) simp_all

lemma balance_absent: "find (named n) es = None \<Longrightarrow> balance es n k = 0"
  by (simp add: balance_def)

lemma balance_snoc:
  "find (named n) es = None \<Longrightarrow> named n e \<Longrightarrow> balance (es @ [e]) n k = amount e k"
  by (simp add: balance_def find_snoc)

lemma balance_first:
  "i < length es \<Longrightarrow> named n (es ! i) \<Longrightarrow> \<forall>j<i. \<not> named n (es ! j)
   \<Longrightarrow> balance es n k = amount (es ! i) k"
  by (simp add: balance_def find_first)

lemma balance_update:
  "i < length es \<Longrightarrow> named n e \<Longrightarrow> \<forall>j<i. \<not> named n (es ! j)
   \<Longrightarrow> balance (es[i := e]) n k = amount e k"
  by (simp add: balance_def find_update)

text \<open>
  The credit on a ledger of entries, for a name that is a string.
\<close>

lemma credit_verify_ledger:
  assumes es: "\<forall>e\<in>set es. is_entry e"
    and bp: "\<bar>balance es (Str u) ''points'' + p\<bar> \<le> 2 ^ 53"
    and bc: "\<bar>balance es (Str u) ''co2'' + c\<bar> \<le> 2 ^ 53"
  shows "\<exists>es'. credit_verify (Arr es) (Str u) (award_of (p, c)) = Inr (Arr es')
      \<and> ((\<forall>e\<in>set es. \<not> named (Str u) e)
            \<and> es' = es @ [Obj [(''name'', Str u), (''points'', Num p), (''co2'', Num c)]]
          \<or> (\<exists>k kvs. k < length es \<and> es ! k = Obj kvs \<and> map_of kvs ''name'' = Some (Str u)
                \<and> (\<forall>j<k. \<not> named (Str u) (es ! j)) \<and> es' = es[k := credited kvs p c]))
      \<and> balance es' (Str u) ''points'' = balance es (Str u) ''points'' + p
      \<and> balance es' (Str u) ''co2'' = balance es (Str u) ''co2'' + c
      \<and> length (filter (named (Str u)) es') = max 1 (length (filter (named (Str u)) es))
      \<and> (\<forall>e\<in>set es'. is_entry e)
      \<and> (is_json (Arr es) \<longrightarrow> is_json (Arr es'))"
  using es
proof (cases rule: credit_verify_entries [where n = "Str u" and p = p and c = c])
  case new
  let ?e = "Obj [(''name'', Str u), (''points'', Num p), (''co2'', Num c)]"
  have no: "\<forall>e\<in>set es. \<not> named (Str u) e"
    using new(1) named_entries [OF es, of _ u] by auto
  then have f: "find (named (Str u)) es = None"
    by (simp add: find_None_iff)
  have n: "named (Str u) ?e" by (rule named_new)
  have "balance (es @ [?e]) (Str u) ''points'' = balance es (Str u) ''points'' + p"
    "balance (es @ [?e]) (Str u) ''co2'' = balance es (Str u) ''co2'' + c"
    using f n by (simp_all add: balance_snoc balance_absent amount_def)
  moreover have "length (filter (named (Str u)) (es @ [?e])) = max 1 (length (filter (named (Str u)) es))"
    using n count_none [OF f] by simp
  moreover have "\<forall>e\<in>set (es @ [?e]). is_entry e"
    using es by (simp add: is_entry_def is_count_def)
  moreover have "is_json (Arr es) \<longrightarrow> is_json (Arr (es @ [?e]))"
    using bp bc f by (simp add: balance_absent is_double_small)
  ultimately show ?thesis
    using new(2) no by blast
next
  case (existing k kvs)
  let ?e = "credited kvs p c"
  have nk: "named (Str u) (es ! k)"
    using existing(1,3) named_entries [OF es, of "es ! k" u] by simp
  then have name: "map_of kvs ''name'' = Some (Str u)"
    using existing(2) by (simp add: named_def)
  have before: "\<forall>j<k. \<not> named (Str u) (es ! j)"
  proof (intro allI impI)
    fix j assume j: "j < k"
    then have "es ! j \<in> set es" using existing(1) by simp
    from named_entries [OF es this, of u] existing(4) j show "\<not> named (Str u) (es ! j)"
      by simp
  qed
  have n: "named (Str u) ?e"
    using nk existing(2) by (simp add: named_credited)
  have bal: "balance es (Str u) q = amount (Obj kvs) q" for q
    using balance_first [of k es "Str u" q] existing(1,2) nk before by simp
  have exact: "credited_double kvs p c = ?e"
    using bp bc by (intro credited_exact) (simp_all add: bal)
  have cr: "credit_verify (Arr es) (Str u) (award_of (p, c)) = Inr (Arr (es[k := ?e]))"
    using existing(6) exact by simp
  have "balance (es[k := ?e]) (Str u) q = amount ?e q" for q
    using existing(1) n before by (rule balance_update)
  then have "balance (es[k := ?e]) (Str u) ''points'' = balance es (Str u) ''points'' + p"
    "balance (es[k := ?e]) (Str u) ''co2'' = balance es (Str u) ''co2'' + c"
    by (simp_all add: amount_credited bal)
  moreover have "length (filter (named (Str u)) (es[k := ?e])) = max 1 (length (filter (named (Str u)) es))"
  proof -
    have "length (filter (named (Str u)) (es[k := ?e])) = length (filter (named (Str u)) es)"
      using existing(1) nk n by (intro count_update) simp_all
    moreover have "0 < length (filter (named (Str u)) es)"
      using existing(1) nk by (rule count_positive)
    ultimately show ?thesis by linarith
  qed
  moreover have "\<forall>e\<in>set (es[k := ?e]). is_entry e"
    using es is_entry_credited [of kvs p c]
    by (auto dest: set_update_subset_insert [THEN subsetD])
  moreover have "is_json (Arr es) \<longrightarrow> is_json (Arr (es[k := ?e]))"
  proof
    assume j: "is_json (Arr es)"
    have "es ! k \<in> set es" using existing(1) by simp
    with j have "is_json (Obj kvs)"
      unfolding existing(2) [symmetric] by simp
    moreover have "is_double (amount (Obj kvs) ''points'' + p)"
      "is_double (amount (Obj kvs) ''co2'' + c)"
      using bp bc by (simp_all add: bal is_double_small)
    ultimately have "is_json ?e" by (rule is_json_credited)
    with j show "is_json (Arr (es[k := ?e]))" by (rule is_json_update)
  qed
  ultimately show ?thesis
    using existing(1,2) cr name before by blast
qed

text \<open>
  C6. On a users collection whose entries have numbers for \<^verbatim>\<open>points\<close> and
  \<^verbatim>\<open>co2\<close>, or lack them, the credit of \<open>p\<close> points and \<open>c\<close> CO2 units to the
  name \<open>u\<close>, on either path, with sums that stay within \<open>2^53\<close> (where the numbers
  of the engine are exact): if some entry has \<open>u\<close> as its property \<^verbatim>\<open>name\<close>, the first
  such entry gets \<open>p\<close> and \<open>c\<close> added to its amounts, a missing amount counting as 0,
  and every other entry stays as it is; if no entry has, an entry with the name \<open>u\<close> and
  exactly \<open>p\<close> and \<open>c\<close> is appended. The balance of the name grows by \<open>p\<close> and
  \<open>c\<close> in both cases, and the number of entries of that name stays what it was, or
  becomes one when it was zero.
\<close>

theorem credit_additive:
  assumes "\<forall>e\<in>set es. is_entry e"
    and "\<bar>balance es (Str u) ''points'' + p\<bar> \<le> 2 ^ 53"
    and "\<bar>balance es (Str u) ''co2'' + c\<bar> \<le> 2 ^ 53"
  shows "\<exists>es'. credit_verify (Arr es) (Str u) (award_of (p, c)) = Inr (Arr es')
      \<and> credit_approve (Arr es) (Str u) (award_of (p, c)) = Inr (Arr es')
      \<and> ((\<forall>e\<in>set es. \<not> named (Str u) e)
            \<and> es' = es @ [Obj [(''name'', Str u), (''points'', Num p), (''co2'', Num c)]]
          \<or> (\<exists>k kvs. k < length es \<and> es ! k = Obj kvs \<and> map_of kvs ''name'' = Some (Str u)
                \<and> (\<forall>j<k. \<not> named (Str u) (es ! j)) \<and> es' = es[k := credited kvs p c]))
      \<and> balance es' (Str u) ''points'' = balance es (Str u) ''points'' + p
      \<and> balance es' (Str u) ''co2'' = balance es (Str u) ''co2'' + c
      \<and> length (filter (named (Str u)) es') = max 1 (length (filter (named (Str u)) es))
      \<and> (\<forall>e\<in>set es'. is_entry e)"
  using credit_verify_ledger [OF assms] unfolding credit_approve_eq by blast

text \<open>
  Crediting \<^verbatim>\<open>Ava\<close> with 10 and 10 on the empty ledger creates her entry, and
  crediting her again makes it 20 and 20, in one entry. Crediting \<^verbatim>\<open>Ben\<close> then, on
  either path, leaves her entry as it is and appends his.
\<close>

theorem credit_additive_witness:
  "credit_verify (Arr []) (Str ''Ava'') (award_of (10, 10)) =
     Inr (Arr [Obj [(''name'', Str ''Ava''), (''points'', Num 10), (''co2'', Num 10)]]) \<and>
   credit_verify (Arr [Obj [(''name'', Str ''Ava''), (''points'', Num 10), (''co2'', Num 10)]])
       (Str ''Ava'') (award_of (10, 10)) =
     Inr (Arr [Obj [(''name'', Str ''Ava''), (''points'', Num 20), (''co2'', Num 20)]]) \<and>
   credit_verify (Arr [Obj [(''name'', Str ''Ava''), (''points'', Num 20), (''co2'', Num 20)]])
       (Str ''Ben'') (award_of (10, 10)) =
     Inr (Arr [Obj [(''name'', Str ''Ava''), (''points'', Num 20), (''co2'', Num 20)],
               Obj [(''name'', Str ''Ben''), (''points'', Num 10), (''co2'', Num 10)]]) \<and>
   credit_approve (Arr [Obj [(''name'', Str ''Ava''), (''points'', Num 20), (''co2'', Num 20)]])
       (Str ''Ben'') (award_of (10, 10)) =
     Inr (Arr [Obj [(''name'', Str ''Ava''), (''points'', Num 20), (''co2'', Num 20)],
               Obj [(''name'', Str ''Ben''), (''points'', Num 10), (''co2'', Num 10)]])"
proof -
  let ?a10 = "Obj [(''name'', Str ''Ava''), (''points'', Num 10), (''co2'', Num 10)]"
  let ?a20 = "Obj [(''name'', Str ''Ava''), (''points'', Num 20), (''co2'', Num 20)]"
  have h0: "\<forall>e\<in>set []. is_entry e" by simp
  have b0: "\<bar>balance [] (Str ''Ava'') q + 10\<bar> \<le> 2 ^ 53" for q
    by (simp add: balance_def)
  have h1: "\<forall>e\<in>set [?a10]. is_entry e"
    by (simp add: is_entry_def is_count_def)
  have b1: "\<bar>balance [?a10] (Str ''Ava'') ''points'' + 10\<bar> \<le> 2 ^ 53"
    "\<bar>balance [?a10] (Str ''Ava'') ''co2'' + 10\<bar> \<le> 2 ^ 53"
    by (simp_all add: balance_def named_def amount_def)
  have h2: "\<forall>e\<in>set [?a20]. is_entry e"
    by (simp add: is_entry_def is_count_def)
  have b2: "\<bar>balance [?a20] (Str ''Ben'') q + 10\<bar> \<le> 2 ^ 53" for q
    by (simp add: balance_def named_def)
  have "credit_verify (Arr []) (Str ''Ava'') (award_of (10, 10)) = Inr (Arr [?a10])"
    using credit_additive [OF h0 b0 b0] by auto
  moreover have "credit_verify (Arr [?a10]) (Str ''Ava'') (award_of (10, 10)) = Inr (Arr [?a20])"
    using credit_additive [OF h1 b1] by (auto simp: named_def credited_def amount_def)
  moreover have "credit_verify (Arr [?a20]) (Str ''Ben'') (award_of (10, 10)) =
       Inr (Arr [?a20, Obj [(''name'', Str ''Ben''), (''points'', Num 10), (''co2'', Num 10)]])
     \<and> credit_approve (Arr [?a20]) (Str ''Ben'') (award_of (10, 10)) =
       Inr (Arr [?a20, Obj [(''name'', Str ''Ben''), (''points'', Num 10), (''co2'', Num 10)]])"
    using credit_additive [OF h2 b2 b2] by (auto simp: named_def)
  ultimately show ?thesis by simp
qed

text \<open>
  C6, beyond \<open>2^53\<close>. The entry of \<^verbatim>\<open>Ava\<close> holds \<open>2^53\<close> points, which is a
  number of the engine. The credit of 5 points, on either path, leaves it with
  \<open>2^53 + 4\<close>: the addition rounds the sum to the nearest double, so the increment is
  not the award.
\<close>

theorem credit_rounds:
  "is_entry (Obj [(''name'', Str ''Ava''), (''points'', Num 9007199254740992), (''co2'', Num 0)]) \<and>
   is_json (Obj [(''name'', Str ''Ava''), (''points'', Num 9007199254740992), (''co2'', Num 0)]) \<and>
   credit_verify (Arr [Obj [(''name'', Str ''Ava''), (''points'', Num 9007199254740992), (''co2'', Num 0)]])
       (Str ''Ava'') (award_of (5, 5)) =
     Inr (Arr [Obj [(''name'', Str ''Ava''), (''points'', Num 9007199254740996), (''co2'', Num 5)]]) \<and>
   credit_approve (Arr [Obj [(''name'', Str ''Ava''), (''points'', Num 9007199254740992), (''co2'', Num 0)]])
       (Str ''Ava'') (award_of (5, 5)) =
     Inr (Arr [Obj [(''name'', Str ''Ava''), (''points'', Num 9007199254740996), (''co2'', Num 5)]])"
  by (simp add: is_entry_def is_count_def is_double_small credit_verify_def credit_approve_def
      findIndex_def name_is_def at_index_def set_index_def award_of_def js_or_def js_add_def
      ToPrimitive_def is_object_def is_string_def num_add_def double_of_beyond double_of_small)

section \<open>Submission\<close>

text \<open>
  C3. When the user is absent or empty, or the action is absent or empty, or there is no
  upload, the submission is answered 400 \<^verbatim>\<open>Missing fields\<close> and the store is the one
  before the call: no verification is written and the users are untouched.
\<close>

theorem verify_missing_fields:
  assumes "user = Undefined \<or> user = Str [] \<or> action = Undefined \<or> action = Str []
           \<or> req_file = None"
  shows "verify now stamp user action req_file st =
     (st, \<lparr>code = 400,
            body = Some (Obj [(''status'', Str ''error''), (''message'', Str ''Missing fields'')])\<rparr>)"
  using assms by (auto simp: verify_def res_json_def split: option.splits)

theorem verify_missing_fields_witness:
  "verify 1000 ''2026-01-01T00:00:00.000Z'' (Str ''Ava'') (Str []) None fresh =
     (fresh, \<lparr>code = 400,
               body = Some (Obj [(''status'', Str ''error''), (''message'', Str ''Missing fields'')])\<rparr>)"
  using verify_missing_fields [of "Str ''Ava''" "Str []" None 1000 "''2026-01-01T00:00:00.000Z''" fresh]
  by simp

text \<open>
  The two ways through the handler once the fields are there.
\<close>

lemma verify_accepted_step:
  assumes "truthy user" and "truthy action" and "2048 < size_file f"
    and "readJson (verifications st) = Arr vs"
    and "writeJson (Arr (vs @ [make_record now stamp user action f True])) = Inr vf"
    and "award_verify action = Inr award"
    and "credit_verify (readJson (users st)) user award = Inr us"
    and "writeJson us = Inr uf"
  shows "verify now stamp user action (Some f) st =
     (st\<lparr>verifications := vf, users := uf\<rparr>,
      res_json 200 (Obj [(''status'', Str ''accepted''), (''id'', Num now), (''award'', award)]))"
  using assms by (simp add: verify_def push_def Let_def)

lemma verify_pending_step:
  assumes "truthy user" and "truthy action" and "size_file f \<le> 2048"
    and "readJson (verifications st) = Arr vs"
    and "writeJson (Arr (vs @ [make_record now stamp user action f False])) = Inr vf"
  shows "verify now stamp user action (Some f) st =
     (st\<lparr>verifications := vf\<rparr>,
      res_json 200 (Obj [(''status'', Str ''pending''), (''id'', Num now),
                         (''filename'', Str (filename f))]))"
  using assms by (simp add: verify_def push_def Let_def)

text \<open>
  A submission with a user, an action and an upload, on a verifications collection that
  is an array and a users collection that is a ledger, for every action but the two
  inherited names and amounts within \<open>2^53\<close>: above 2048 bytes the record is written as accepted, the balance of the
  user grows by the award of the mapping, a user without an entry gets one with that
  award, and the answer carries the award; up to 2048 bytes the record is written as
  pending, the users collection stays, and the answer carries the file name.
\<close>

lemma verify_outcome:
  assumes u: "u \<noteq> []" and a: "a \<noteq> []"
    and names: "toLowerCase a \<notin> {''constructor'', ''__proto__''}"
    and vs: "readJson (verifications st) = Arr vs" "is_json (Arr vs)" "is_double now"
    and es: "readJson (users st) = Arr es" "ledger (Arr es)"
    and bp: "\<bar>balance es (Str u) ''points'' + fst (AwardMapping (toLowerCase a))\<bar> \<le> 2 ^ 53"
    and bc: "\<bar>balance es (Str u) ''co2'' + snd (AwardMapping (toLowerCase a))\<bar> \<le> 2 ^ 53"
  shows "if 2048 < size_file f then
       (\<exists>es'. verify now stamp (Str u) (Str a) (Some f) st =
          (st\<lparr>verifications := Json (Arr (vs @ [make_record now stamp (Str u) (Str a) f True])),
              users := Json (Arr es')\<rparr>,
           \<lparr>code = 200,
             body = Some (Obj [(''status'', Str ''accepted''), (''id'', Num now),
                               (''award'', award_of (AwardMapping (toLowerCase a)))])\<rparr>)
         \<and> balance es' (Str u) ''points'' =
             balance es (Str u) ''points'' + fst (AwardMapping (toLowerCase a))
         \<and> balance es' (Str u) ''co2'' =
             balance es (Str u) ''co2'' + snd (AwardMapping (toLowerCase a))
         \<and> ((\<forall>e\<in>set es. \<not> named (Str u) e) \<longrightarrow>
              es' = es @ [Obj [(''name'', Str u),
                               (''points'', Num (fst (AwardMapping (toLowerCase a)))),
                               (''co2'', Num (snd (AwardMapping (toLowerCase a))))]])
         \<and> ledger (Arr es'))
     else verify now stamp (Str u) (Str a) (Some f) st =
          (st\<lparr>verifications := Json (Arr (vs @ [make_record now stamp (Str u) (Str a) f False]))\<rparr>,
           \<lparr>code = 200,
             body = Some (Obj [(''status'', Str ''pending''), (''id'', Num now),
                               (''filename'', Str (filename f))])\<rparr>)"
proof -
  let ?A = "AwardMapping (toLowerCase a)"
  have t: "truthy (Str u)" "truthy (Str a)"
    using u a by simp_all
  have w: "writeJson (Arr (vs @ [make_record now stamp (Str u) (Str a) f b])) =
           Inr (Json (Arr (vs @ [make_record now stamp (Str u) (Str a) f b])))" for b
    using vs(2,3) by (intro writeJson_json is_json_snoc is_json_make_record) simp_all
  show ?thesis
  proof (cases "2048 < size_file f")
    case False
    then have "size_file f \<le> 2048" by simp
    from verify_pending_step [OF t this vs(1) w] False show ?thesis
      by (simp add: res_json_def)
  next
    case True
    have ent: "\<forall>e\<in>set es. is_entry e" and j: "is_json (Arr es)"
      using es(2) by (simp_all add: ledger_def)
    from credit_verify_ledger [OF ent bp bc] j
    obtain es' where es': "credit_verify (Arr es) (Str u) (award_of ?A) = Inr (Arr es')"
      and shape: "(\<forall>e\<in>set es. \<not> named (Str u) e)
            \<and> es' = es @ [Obj [(''name'', Str u), (''points'', Num (fst ?A)), (''co2'', Num (snd ?A))]]
          \<or> (\<exists>k kvs. k < length es \<and> es ! k = Obj kvs \<and> map_of kvs ''name'' = Some (Str u)
                \<and> (\<forall>j<k. \<not> named (Str u) (es ! j)) \<and> es' = es[k := credited kvs (fst ?A) (snd ?A)])"
      and bal: "balance es' (Str u) ''points'' = balance es (Str u) ''points'' + fst ?A"
               "balance es' (Str u) ''co2'' = balance es (Str u) ''co2'' + snd ?A"
      and led: "\<forall>e\<in>set es'. is_entry e" "is_json (Arr es')"
      by auto
    have new: "(\<forall>e\<in>set es. \<not> named (Str u) e) \<longrightarrow>
                es' = es @ [Obj [(''name'', Str u), (''points'', Num (fst ?A)), (''co2'', Num (snd ?A))]]"
    proof
      assume no: "\<forall>e\<in>set es. \<not> named (Str u) e"
      from shape show "es' = es @ [Obj [(''name'', Str u), (''points'', Num (fst ?A)), (''co2'', Num (snd ?A))]]"
      proof
        assume "\<exists>k kvs. k < length es \<and> es ! k = Obj kvs \<and> map_of kvs ''name'' = Some (Str u)
                \<and> (\<forall>j<k. \<not> named (Str u) (es ! j)) \<and> es' = es[k := credited kvs (fst ?A) (snd ?A)]"
        then obtain k kvs where k: "k < length es" "es ! k = Obj kvs" "map_of kvs ''name'' = Some (Str u)"
          by blast
        then have "named (Str u) (es ! k)" by (simp add: named_def)
        with no k(1) show ?thesis by (metis nth_mem)
      qed simp
    qed
    have aw: "award_verify (Str a) = Inr (award_of ?A)"
      using names by (rule award_verify_AwardMapping)
    have cr: "credit_verify (readJson (users st)) (Str u) (award_of ?A) = Inr (Arr es')"
      using es' es(1) by simp
    have wu: "writeJson (Arr es') = Inr (Json (Arr es'))"
      using led(2) by (rule writeJson_json)
    have "verify now stamp (Str u) (Str a) (Some f) st =
          (st\<lparr>verifications := Json (Arr (vs @ [make_record now stamp (Str u) (Str a) f True])),
              users := Json (Arr es')\<rparr>,
           res_json 200 (Obj [(''status'', Str ''accepted''), (''id'', Num now), (''award'', award_of ?A)]))"
      using t True vs(1) w aw cr wu by (rule verify_accepted_step)
    moreover have "res_json 200 (Obj [(''status'', Str ''accepted''), (''id'', Num now), (''award'', award_of ?A)])
        = \<lparr>code = 200, body = Some (Obj [(''status'', Str ''accepted''), (''id'', Num now), (''award'', award_of ?A)])\<rparr>"
      using vs(3) by (intro res_json_json) (simp add: award_of_def AwardMapping_def is_double_small)
    ultimately have v: "verify now stamp (Str u) (Str a) (Some f) st =
          (st\<lparr>verifications := Json (Arr (vs @ [make_record now stamp (Str u) (Str a) f True])),
              users := Json (Arr es')\<rparr>,
           \<lparr>code = 200,
             body = Some (Obj [(''status'', Str ''accepted''), (''id'', Num now),
                               (''award'', award_of ?A)])\<rparr>)"
      by simp
    have l: "ledger (Arr es')"
      using led by (simp add: ledger_def)
    show ?thesis
      unfolding if_P [OF True] using v bal new l by (intro exI [of _ es'] conjI)
  qed
qed

text \<open>
  The definitions that evaluate a handler on a given store, and the two stores of the
  examples as the handlers produce them from the store after start-up.
\<close>

lemmas handler_defs =
  verify_def approve_def users_post_def make_record_def push_def findIndex_def at_index_def
  set_index_def readJson_def parse_file_def writeJson_def res_json_def caught_def fresh_def
  award_verify_def award_approve_def mapping_verify_def mapping_approve_def call_toLowerCase_def
  credit_verify_def credit_approve_def name_is_def id_is_def js_or_def js_add_def
  ToPrimitive_def is_object_def is_string_def num_add_def loose_eq_def is_nullish_def prim_eq_def
  inherited_def double_of_small Let_def

lemma submitted_reached:
  "fst (verify 1000 ''2026-01-01T00:00:00.000Z'' (Str ''Ava'') (Str ''plant'') (Some photo) fresh) =
   submitted"
  by (simp add: handler_defs lower_plant photo_def submitted_def)

lemma waiting_reached:
  "fst (verify 2000 ''2026-01-02T00:00:00.000Z'' (Str ''Ben'') (Str ''clean'')
         (Some \<lparr>size_file = 1500, filename = ''2000-7.jpg'', originalname = ''street.jpg''\<rparr>)
         submitted) = waiting"
  by (simp add: handler_defs lower_clean submitted_def waiting_def)

text \<open>
  C1. A submission of more than 2048 bytes by \<^verbatim>\<open>Ava\<close> for the action
  \<^verbatim>\<open>constructor\<close>, on the store after start-up: the record is written as accepted, but
  the answer has no award and the entry created for \<^verbatim>\<open>Ava\<close> has neither points nor
  CO2 units. The award is the inherited \<^verbatim>\<open>Object\<close> function, whose \<^verbatim>\<open>points\<close> and
  \<^verbatim>\<open>co2\<close> are \<^verbatim>\<open>undefined\<close>, and \<^verbatim>\<open>JSON.stringify\<close> leaves such properties
  out.
\<close>

theorem verify_constructor:
  "verify 1000 ''2026-01-01T00:00:00.000Z'' (Str ''Ava'') (Str ''constructor'')
      (Some \<lparr>size_file = 3000, filename = ''1000-1.jpg'', originalname = ''tree.jpg''\<rparr>) fresh =
   (\<lparr>reports = Json (Arr []),
     users = Json (Arr [Obj [(''name'', Str ''Ava'')]]),
     verifications = Json (Arr [Obj [(''id'', Num 1000), (''user'', Str ''Ava''),
        (''action'', Str ''constructor''), (''filename'', Str ''1000-1.jpg''),
        (''originalName'', Str ''tree.jpg''), (''status'', Str ''accepted''),
        (''timestamp'', Str ''2026-01-01T00:00:00.000Z'')]])\<rparr>,
    \<lparr>code = 200, body = Some (Obj [(''status'', Str ''accepted''), (''id'', Num 1000)])\<rparr>)"
  by (simp add: handler_defs lower_constructor)

text \<open>
  Read off the result: the users collection and the body of the answer.
\<close>

theorem verify_constructor_witness:
  "readJson (users (fst (verify 1000 ''2026-01-01T00:00:00.000Z'' (Str ''Ava'') (Str ''constructor'')
      (Some \<lparr>size_file = 3000, filename = ''1000-1.jpg'', originalname = ''tree.jpg''\<rparr>) fresh))) =
     Arr [Obj [(''name'', Str ''Ava'')]] \<and>
   body (snd (verify 1000 ''2026-01-01T00:00:00.000Z'' (Str ''Ava'') (Str ''constructor'')
      (Some \<lparr>size_file = 3000, filename = ''1000-1.jpg'', originalname = ''tree.jpg''\<rparr>) fresh)) =
     Some (Obj [(''status'', Str ''accepted''), (''id'', Num 1000)])"
  using verify_constructor by (simp add: readJson_def parse_file_def)

section \<open>Approval\<close>

text \<open>
  C4. When the verifications collection is an array and \<^verbatim>\<open>x.id == id\<close> is true for
  no record of it, the store, with its three collections, is the one before the call. The
  answer is 404 \<^verbatim>\<open>Not found\<close> when the comparison is false for every record, and the
  500 of the \<^verbatim>\<open>catch\<close> block when the comparison throws for some record.
\<close>

theorem approve_no_match:
  assumes "readJson (verifications st) = Arr xs" and "\<forall>x\<in>set xs. id_is id0 x \<noteq> Inr True"
  shows "approve id0 st =
     (st, if \<forall>x\<in>set xs. id_is id0 x = Inr False
          then \<lparr>code = 404,
                 body = Some (Obj [(''status'', Str ''error''), (''message'', Str ''Not found'')])\<rparr>
          else \<lparr>code = 500, body = Some (Obj [(''status'', Str ''error'')])\<rparr>)"
proof (cases "\<forall>x\<in>set xs. id_is id0 x = Inr False")
  case True
  then have "find_from (id_is id0) xs 0 = Inr None" by (rule find_from_none)
  with assms(1) True show ?thesis
    by (simp add: approve_def findIndex_def res_json_def)
next
  case False
  with assms(2) obtain e where "find_from (id_is id0) xs 0 = Inl e"
    using find_from_throws by blast
  with assms(1) False show ?thesis
    by (simp add: approve_def findIndex_def caught_def res_json_def)
qed

text \<open>
  On the store of the example, the id 1001 is answered 404, and the id
  \<^verbatim>\<open>[{"toString": 1}]\<close>, an array that has no string, is answered 500.
\<close>

theorem approve_no_match_witness:
  "id_is (Num 1001)
     (Obj [(''id'', Num 1000), (''user'', Str ''Ava''),
        (''action'', Str ''plant''), (''filename'', Str ''1000-1.jpg''),
        (''originalName'', Str ''tree.jpg''), (''status'', Str ''accepted''),
        (''timestamp'', Str ''2026-01-01T00:00:00.000Z'')]) = Inr False \<and>
   approve (Num 1001) submitted =
     (submitted, \<lparr>code = 404,
        body = Some (Obj [(''status'', Str ''error''), (''message'', Str ''Not found'')])\<rparr>) \<and>
   id_is (Arr [Obj [(''toString'', Num 1)]])
     (Obj [(''id'', Num 1000), (''user'', Str ''Ava''),
        (''action'', Str ''plant''), (''filename'', Str ''1000-1.jpg''),
        (''originalName'', Str ''tree.jpg''), (''status'', Str ''accepted''),
        (''timestamp'', Str ''2026-01-01T00:00:00.000Z'')]) = Inl TypeError \<and>
   approve (Arr [Obj [(''toString'', Num 1)]]) submitted =
     (submitted, \<lparr>code = 500, body = Some (Obj [(''status'', Str ''error'')])\<rparr>)"
proof -
  let ?r = "Obj [(''id'', Num 1000), (''user'', Str ''Ava''),
        (''action'', Str ''plant''), (''filename'', Str ''1000-1.jpg''),
        (''originalName'', Str ''tree.jpg''), (''status'', Str ''accepted''),
        (''timestamp'', Str ''2026-01-01T00:00:00.000Z'')]"
  have xs: "readJson (verifications submitted) = Arr [?r]"
    by (simp add: submitted_def readJson_def parse_file_def)
  have no: "id_is (Num 1001) ?r = Inr False"
    by (simp add: id_is_def loose_eq_def is_nullish_def is_object_def ToPrimitive_def
        prim_eq_def is_string_def)
  then have h: "\<forall>x\<in>set [?r]. id_is (Num 1001) x \<noteq> Inr True" by simp
  have thr: "id_is (Arr [Obj [(''toString'', Num 1)]]) ?r = Inl TypeError"
    by (simp add: id_is_def loose_eq_def is_nullish_def is_object_def ToPrimitive_def)
  then have h': "\<forall>x\<in>set [?r]. id_is (Arr [Obj [(''toString'', Num 1)]]) x \<noteq> Inr True" by simp
  show ?thesis
    using approve_no_match [OF xs h] approve_no_match [OF xs h'] no thr by simp
qed

text \<open>
  C4, the answer that is not \<^verbatim>\<open>Not found\<close>. The id \<^verbatim>\<open>{"toString": 1}\<close> matches no
  record of the store of the example: the comparison with the id 1000 converts the object
  to a primitive, which throws because its \<^verbatim>\<open>toString\<close> is no function. The approval
  is answered 500, with the store as it was.
\<close>

theorem approve_throwing_id:
  "readJson (verifications submitted) =
     Arr [Obj [(''id'', Num 1000), (''user'', Str ''Ava''),
        (''action'', Str ''plant''), (''filename'', Str ''1000-1.jpg''),
        (''originalName'', Str ''tree.jpg''), (''status'', Str ''accepted''),
        (''timestamp'', Str ''2026-01-01T00:00:00.000Z'')]] \<and>
   id_is (Obj [(''toString'', Num 1)])
     (Obj [(''id'', Num 1000), (''user'', Str ''Ava''),
        (''action'', Str ''plant''), (''filename'', Str ''1000-1.jpg''),
        (''originalName'', Str ''tree.jpg''), (''status'', Str ''accepted''),
        (''timestamp'', Str ''2026-01-01T00:00:00.000Z'')]) = Inl TypeError \<and>
   approve (Obj [(''toString'', Num 1)]) submitted =
     (submitted, \<lparr>code = 500, body = Some (Obj [(''status'', Str ''error'')])\<rparr>)"
  by (simp add: submitted_def readJson_def parse_file_def approve_def findIndex_def id_is_def
      loose_eq_def is_nullish_def is_object_def ToPrimitive_def caught_def res_json_def)

lemma approve_found_step:
  assumes "readJson (verifications st) = Arr xs" and "is_json (Arr xs)"
    and "find_from (id_is id0) xs 0 = Inr (Some i)" and "i < length xs"
    and "xs ! i = Obj kvs" and "is_verification (Obj kvs)"
  shows "code (snd (approve id0 st)) \<noteq> 404 \<and>
         verifications (fst (approve id0 st)) =
           Json (Arr (xs[i := Obj (put ''status'' (Str ''accepted'') kvs)]))"
proof -
  let ?r = "Obj (put ''status'' (Str ''accepted'') kvs)"
  have j: "is_json (Arr (xs[i := ?r]))"
  proof -
    have "is_json (Obj kvs)"
      using is_json_nth [OF assms(2,4)] assms(5) by simp
    then have "is_json ?r" by (intro is_json_put) simp_all
    with assms(2) show ?thesis by (rule is_json_update)
  qed
  obtain a where a: "map_of kvs ''action'' = Some (Str a)"
    using assms(6) by (auto simp: is_verification_def split: option.splits jsval.splits)
  obtain award where aw: "award_approve (Str a) = Inr award"
    using award_approve_string by blast
  show ?thesis
    using assms(1,3,4,5) a aw
    by (simp add: approve_def findIndex_def at_index_def set_index_def writeJson_json [OF j]
        map_of_put caught_def res_json_def Let_def split: sum.splits)
qed

lemma id_is_verification:
  assumes "is_verification x" and "is_double n"
  shows "\<exists>m. get_prop x ''id'' = Inr (Num m) \<and> id_is (Str (Number_toString n)) x = Inr (m = n)"
proof -
  obtain kvs where x: "x = Obj kvs"
    using assms(1) by (cases x) (simp_all add: is_verification_def)
  then obtain m where "map_of kvs ''id'' = Some (Num m)"
    using assms(1) by (auto simp: is_verification_def split: option.splits jsval.splits)
  with x show ?thesis
    by (simp add: id_is_def loose_eq_Num_Str [OF assms(2)])
qed

text \<open>
  C10. When the record at index \<open>i\<close> has the number \<open>n\<close> as its id and no record
  before it has, an approval whose id is the string of the decimal digits of \<open>n\<close> is not
  answered 404: the record at \<open>i\<close> is the one found, and it is written back with the
  status \<^verbatim>\<open>accepted\<close>.
\<close>

theorem approve_string_id:
  assumes xs: "readJson (verifications st) = Arr xs" and json: "is_json (Arr xs)"
    and recs: "\<forall>x\<in>set xs. is_verification x"
    and i: "i < length xs" and n: "get_prop (xs ! i) ''id'' = Inr (Num n)"
    and first: "\<forall>j<i. get_prop (xs ! j) ''id'' \<noteq> Inr (Num n)"
  shows "\<exists>kvs. xs ! i = Obj kvs \<and>
           code (snd (approve (Str (Number_toString n)) st)) \<noteq> 404 \<and>
           verifications (fst (approve (Str (Number_toString n)) st)) =
             Json (Arr (xs[i := Obj (put ''status'' (Str ''accepted'') kvs)]))"
proof -
  let ?id = "Str (Number_toString n)"
  have v: "is_verification (xs ! i)" using recs i by simp
  then obtain kvs where kvs: "xs ! i = Obj kvs"
    by (cases "xs ! i") (simp_all add: is_verification_def)
  have "map_of kvs ''id'' = Some (Num n)"
    using v n kvs by (auto simp: is_verification_def split: option.splits jsval.splits)
  then have "(''id'', Num n) \<in> set kvs" by (rule map_of_SomeD)
  moreover have "is_json (Obj kvs)"
    using is_json_nth [OF json i] kvs by simp
  ultimately have d: "is_double n" by auto
  have "id_is ?id (xs ! i) = Inr True"
    using id_is_verification [OF v d] n by auto
  moreover have "\<forall>j<i. id_is ?id (xs ! j) = Inr False"
  proof (intro allI impI)
    fix j assume j: "j < i"
    then have "is_verification (xs ! j)" using recs i by simp
    from id_is_verification [OF this d] first j show "id_is ?id (xs ! j) = Inr False"
      by auto
  qed
  ultimately have "find_from (id_is ?id) xs 0 = Inr (Some (0 + i))"
    using i by (intro find_from_first) simp_all
  then have "find_from (id_is ?id) xs 0 = Inr (Some i)" by simp
  from approve_found_step [OF xs json this i kvs] v kvs show ?thesis
    by simp
qed

lemma Number_toString_2000: "Number_toString 2000 = ''2000''"
  by (simp add: Number_toString_def digits.simps digit_char_def)

theorem approve_string_id_witness:
  "Number_toString 2000 = ''2000'' \<and>
   code (snd (approve (Str ''2000'') waiting)) \<noteq> 404 \<and>
   verifications (fst (approve (Str ''2000'') waiting)) =
     Json (Arr [
        Obj [(''id'', Num 1000), (''user'', Str ''Ava''),
             (''action'', Str ''plant''), (''filename'', Str ''1000-1.jpg''),
             (''originalName'', Str ''tree.jpg''), (''status'', Str ''accepted''),
             (''timestamp'', Str ''2026-01-01T00:00:00.000Z'')],
        Obj [(''id'', Num 2000), (''user'', Str ''Ben''),
             (''action'', Str ''clean''), (''filename'', Str ''2000-7.jpg''),
             (''originalName'', Str ''street.jpg''), (''status'', Str ''accepted''),
             (''timestamp'', Str ''2026-01-02T00:00:00.000Z'')]])"
proof -
  let ?a = "Obj [(''id'', Num 1000), (''user'', Str ''Ava''),
             (''action'', Str ''plant''), (''filename'', Str ''1000-1.jpg''),
             (''originalName'', Str ''tree.jpg''), (''status'', Str ''accepted''),
             (''timestamp'', Str ''2026-01-01T00:00:00.000Z'')]"
  let ?kvs = "[(''id'', Num 2000), (''user'', Str ''Ben''),
             (''action'', Str ''clean''), (''filename'', Str ''2000-7.jpg''),
             (''originalName'', Str ''street.jpg''), (''status'', Str ''pending''),
             (''timestamp'', Str ''2026-01-02T00:00:00.000Z'')]"
  have xs: "readJson (verifications waiting) = Arr [?a, Obj ?kvs]"
    by (simp add: waiting_def readJson_def parse_file_def)
  have json: "is_json (Arr [?a, Obj ?kvs])" by (simp add: is_double_small)
  have recs: "\<forall>x\<in>set [?a, Obj ?kvs]. is_verification x"
    by (simp add: is_verification_def)
  have i: "(1::nat) < length [?a, Obj ?kvs]" by simp
  have n: "get_prop ([?a, Obj ?kvs] ! 1) ''id'' = Inr (Num 2000)" by simp
  have first: "\<forall>j<1. get_prop ([?a, Obj ?kvs] ! j) ''id'' \<noteq> Inr (Num 2000)" by simp
  from approve_string_id [OF xs json recs i n first]
  show ?thesis
    by (simp add: Number_toString_2000)
qed

text \<open>
  C2. \<^verbatim>\<open>Ava\<close> submits 3000 bytes for \<^verbatim>\<open>plant\<close> on the store after start-up: the
  record is accepted at once and her ledger entry is 20 points and 20 CO2 units. Approving
  that record, whose status is \<^verbatim>\<open>accepted\<close> already, credits the award once more: the
  entry becomes 40 and 40, and the answer reports the award.
\<close>

theorem approve_accepted_credits_again:
  "verify 1000 ''2026-01-01T00:00:00.000Z'' (Str ''Ava'') (Str ''plant'')
      (Some \<lparr>size_file = 3000, filename = ''1000-1.jpg'', originalname = ''tree.jpg''\<rparr>) fresh =
   (\<lparr>reports = Json (Arr []),
     users = Json (Arr [Obj [(''name'', Str ''Ava''), (''points'', Num 20), (''co2'', Num 20)]]),
     verifications = Json (Arr [Obj [(''id'', Num 1000), (''user'', Str ''Ava''),
        (''action'', Str ''plant''), (''filename'', Str ''1000-1.jpg''),
        (''originalName'', Str ''tree.jpg''), (''status'', Str ''accepted''),
        (''timestamp'', Str ''2026-01-01T00:00:00.000Z'')]])\<rparr>,
    \<lparr>code = 200, body = Some (Obj [(''status'', Str ''accepted''), (''id'', Num 1000),
        (''award'', Obj [(''points'', Num 20), (''co2'', Num 20)])])\<rparr>)
   \<and>
   approve (Num 1000)
     \<lparr>reports = Json (Arr []),
      users = Json (Arr [Obj [(''name'', Str ''Ava''), (''points'', Num 20), (''co2'', Num 20)]]),
      verifications = Json (Arr [Obj [(''id'', Num 1000), (''user'', Str ''Ava''),
        (''action'', Str ''plant''), (''filename'', Str ''1000-1.jpg''),
        (''originalName'', Str ''tree.jpg''), (''status'', Str ''accepted''),
        (''timestamp'', Str ''2026-01-01T00:00:00.000Z'')]])\<rparr> =
   (\<lparr>reports = Json (Arr []),
     users = Json (Arr [Obj [(''name'', Str ''Ava''), (''points'', Num 40), (''co2'', Num 40)]]),
     verifications = Json (Arr [Obj [(''id'', Num 1000), (''user'', Str ''Ava''),
        (''action'', Str ''plant''), (''filename'', Str ''1000-1.jpg''),
        (''originalName'', Str ''tree.jpg''), (''status'', Str ''accepted''),
        (''timestamp'', Str ''2026-01-01T00:00:00.000Z'')]])\<rparr>,
    \<lparr>code = 200, body = Some (Obj [(''status'', Str ''ok''),
        (''award'', Obj [(''points'', Num 20), (''co2'', Num 20)])])\<rparr>)"
  by (simp add: handler_defs lower_plant)

text \<open>
  Read off the result: the balance of \<^verbatim>\<open>Ava\<close> before and after the approval.
\<close>

theorem approve_accepted_credits_again_witness:
  "balance [Obj [(''name'', Str ''Ava''), (''points'', Num 20), (''co2'', Num 20)]] (Str ''Ava'') ''points'' = 20 \<and>
   readJson (users (fst (approve (Num 1000) submitted))) =
     Arr [Obj [(''name'', Str ''Ava''), (''points'', Num 40), (''co2'', Num 40)]] \<and>
   balance [Obj [(''name'', Str ''Ava''), (''points'', Num 40), (''co2'', Num 40)]] (Str ''Ava'') ''points'' = 40"
  using approve_accepted_credits_again
  by (simp add: submitted_def readJson_def parse_file_def balance_def named_def amount_def)

section \<open>The stored records\<close>

lemma is_verification_make_record: "is_verification (make_record now stamp (Str u) (Str a) f b)"
  by (simp add: make_record_def is_verification_def)

lemma is_verification_status:
  "is_verification (Obj kvs) \<Longrightarrow> is_verification (Obj (put ''status'' v kvs))"
  by (simp add: is_verification_def map_of_put)

lemma verify_verifications:
  assumes "readJson (verifications st) = Arr vs"
  shows "verifications (fst (verify now stamp user action req_file st)) = verifications st \<or>
     (\<exists>f b. writeJson (Arr (vs @ [make_record now stamp user action f b])) =
              Inr (verifications (fst (verify now stamp user action req_file st))))"
  using assms
  by (auto simp: verify_def push_def Let_def caught_def split: option.splits sum.splits)

lemma approve_verifications:
  assumes "readJson (verifications st) = Arr xs"
  shows "verifications (fst (approve id0 st)) = verifications st \<or>
     (\<exists>i r. i < length xs \<and> set_prop (xs ! i) ''status'' (Str ''accepted'') = Inr r \<and>
            writeJson (Arr (xs[i := r])) = Inr (verifications (fst (approve id0 st))))"
proof (cases "find_from (id_is id0) xs 0")
  case (Inl e)
  with assms show ?thesis by (simp add: approve_def findIndex_def caught_def)
next
  case (Inr found)
  show ?thesis
  proof (cases found)
    case None
    with assms Inr show ?thesis by (simp add: approve_def findIndex_def)
  next
    case (Some i)
    with Inr find_from_bound [of "id_is id0" xs 0 i] have i: "i < length xs" by simp
    show ?thesis
      using assms Inr Some i
      by (auto simp: approve_def findIndex_def at_index_def set_index_def Let_def caught_def
          split: sum.splits)
  qed
qed

text \<open>
  The records stay records: a verifications collection of records, as \<open>verify\<close> writes
  them for text fields, is one after every submission and every approval.
\<close>

lemma records_kept:
  assumes vs: "readJson (verifications st) = Arr vs" and j: "is_json (Arr vs)"
    and recs: "\<forall>x\<in>set vs. is_verification x" and now: "is_double now"
  shows "\<exists>vs'. readJson (verifications (fst (verify now stamp (Str u) (Str a) req_file st))) = Arr vs'
           \<and> is_json (Arr vs') \<and> (\<forall>x\<in>set vs'. is_verification x)"
    and "\<exists>vs'. readJson (verifications (fst (approve id0 st))) = Arr vs'
           \<and> is_json (Arr vs') \<and> (\<forall>x\<in>set vs'. is_verification x)"
proof -
  from verify_verifications [OF vs, of now stamp "Str u" "Str a" req_file]
  show "\<exists>vs'. readJson (verifications (fst (verify now stamp (Str u) (Str a) req_file st))) = Arr vs'
           \<and> is_json (Arr vs') \<and> (\<forall>x\<in>set vs'. is_verification x)"
  proof
    assume "verifications (fst (verify now stamp (Str u) (Str a) req_file st)) = verifications st"
    with vs j recs show ?thesis by simp
  next
    assume "\<exists>f b. writeJson (Arr (vs @ [make_record now stamp (Str u) (Str a) f b])) =
              Inr (verifications (fst (verify now stamp (Str u) (Str a) req_file st)))"
    then obtain f b where w: "writeJson (Arr (vs @ [make_record now stamp (Str u) (Str a) f b])) =
              Inr (verifications (fst (verify now stamp (Str u) (Str a) req_file st)))"
      by blast
    let ?vs = "vs @ [make_record now stamp (Str u) (Str a) f b]"
    have j': "is_json (Arr ?vs)"
      using j now by (intro is_json_snoc is_json_make_record) simp_all
    from writeJson_json [OF j'] w
    have "verifications (fst (verify now stamp (Str u) (Str a) req_file st)) = Json (Arr ?vs)"
      by simp
    then have "readJson (verifications (fst (verify now stamp (Str u) (Str a) req_file st))) = Arr ?vs"
      by (simp add: readJson_def parse_file_def)
    moreover have "\<forall>x\<in>set ?vs. is_verification x"
      using recs by (simp add: is_verification_make_record)
    ultimately show ?thesis using j' by blast
  qed
next
  from approve_verifications [OF vs, of id0]
  show "\<exists>vs'. readJson (verifications (fst (approve id0 st))) = Arr vs'
           \<and> is_json (Arr vs') \<and> (\<forall>x\<in>set vs'. is_verification x)"
  proof
    assume "verifications (fst (approve id0 st)) = verifications st"
    with vs j recs show ?thesis by simp
  next
    assume "\<exists>i r. i < length vs \<and> set_prop (vs ! i) ''status'' (Str ''accepted'') = Inr r \<and>
            writeJson (Arr (vs[i := r])) = Inr (verifications (fst (approve id0 st)))"
    then obtain i r where i: "i < length vs"
      and r: "set_prop (vs ! i) ''status'' (Str ''accepted'') = Inr r"
      and w: "writeJson (Arr (vs[i := r])) = Inr (verifications (fst (approve id0 st)))"
      by blast
    have v: "is_verification (vs ! i)" using recs i by simp
    then obtain kvs where kvs: "vs ! i = Obj kvs"
      by (cases "vs ! i") (simp_all add: is_verification_def)
    with r have r': "r = Obj (put ''status'' (Str ''accepted'') kvs)" by simp
    have "is_json (Obj kvs)"
      using is_json_nth [OF j i] kvs by simp
    then have "is_json r"
      unfolding r' by (intro is_json_put) simp_all
    with j have j': "is_json (Arr (vs[i := r]))" by (rule is_json_update)
    have vr: "is_verification r"
      using v kvs r' by (simp add: is_verification_status)
    from writeJson_json [OF j'] w
    have "verifications (fst (approve id0 st)) = Json (Arr (vs[i := r]))"
      by simp
    then have "readJson (verifications (fst (approve id0 st))) = Arr (vs[i := r])"
      by (simp add: readJson_def parse_file_def)
    moreover have "\<forall>x\<in>set (vs[i := r]). is_verification x"
      using recs vr by (auto dest: set_update_subset_insert [THEN subsetD])
    ultimately show ?thesis using j' by blast
  qed
qed

section \<open>The amounts of the ledger\<close>
















end
